theory Spec2Isabelle
  imports Complex_Main
begin

section \<open>The full-duplex speech engine (sts\_engine.py)\<close>

text \<open>
  The engine of \<^verbatim>\<open>sts_engine.py\<close> is a class whose methods mutate the instance under
  one lock. It is embedded by explicit state passing: a record of the attributes the
  methods read and write, and one function per method that returns the updated record.

  Python floats (energies, thresholds, the two moving averages, wall-clock seconds) are
  taken as real numbers, so the decimal constants of the module are exact (\<open>1.6\<close> is
  \<open>16/10\<close>) and rounding is outside the model. Every call of \<^verbatim>\<open>time.time()\<close> inside
  a method is read as one argument \<open>now\<close> of that method.
\<close>

subsection \<open>Module constants\<close>

text \<open>
  Three of the constants are read from the environment at import time and are therefore
  parameters; the others are literals of the module.
\<close>

record config =
  SILENCE_THRESHOLD :: int
  SPEECH_START_FRAMES :: int
  SILENCE_END_FRAMES :: int

definition default_config :: config where
  "default_config =
     \<lparr>SILENCE_THRESHOLD = 250, SPEECH_START_FRAMES = 2, SILENCE_END_FRAMES = 16\<rparr>"

definition MAX_RECORDING_FRAMES :: nat where
  "MAX_RECORDING_FRAMES = 500"

definition BARGE_IN_GUARD_MS :: real where
  "BARGE_IN_GUARD_MS = 250"

definition BARGE_IN_COOLDOWN_MS :: real where
  "BARGE_IN_COOLDOWN_MS = 350"

definition BARGE_IN_MULTIPLIER :: real where
  "BARGE_IN_MULTIPLIER = 1.6"

definition BARGE_IN_DELTA :: real where
  "BARGE_IN_DELTA = 200"

definition TTS_BASELINE_EMA_ALPHA :: real where
  "TTS_BASELINE_EMA_ALPHA = 0.15"

definition NOISE_FLOOR_EMA_ALPHA :: real where
  "NOISE_FLOOR_EMA_ALPHA = 0.08"

definition NOISE_FLOOR_MULTIPLIER :: real where
  "NOISE_FLOOR_MULTIPLIER = 1.8"

definition NOISE_FLOOR_MARGIN :: real where
  "NOISE_FLOOR_MARGIN = 40"

text \<open>
  \<^verbatim>\<open>self._echo_threshold_boost\<close> is an instance attribute, set to 200 by the constructor
  and never assigned again anywhere in the repository.
\<close>

definition echo_threshold_boost :: real where
  "echo_threshold_boost = 200"

subsection \<open>The engine state\<close>

text \<open>
  The attributes of \<^verbatim>\<open>STSEngine\<close>. A frame is a value of the type parameter \<open>'f\<close>
  (a block of samples; the segmenter never looks inside it). \<open>audio_buffer\<close> is the
  \<^verbatim>\<open>deque(maxlen=MAX_RECORDING_FRAMES)\<close>, oldest frame first.

  Three fields record what the engine hands to its collaborators:
  \<open>dispatched\<close> lists the buffers submitted to \<^verbatim>\<open>_transcribe_async\<close>, in order;
  \<open>speech_start_calls\<close> counts the submissions of \<^verbatim>\<open>on_speech_start\<close>;
  \<open>interrupt_calls\<close> counts the invocations of \<^verbatim>\<open>on_interrupt\<close>.
  The \<open>has_\<close> fields say whether the optional callback is set.

  \<open>warnings\<close> lists the warnings printed by \<^verbatim>\<open>_finish_recording\<close>, in order.
  \<open>handoff_fails\<close> says whether the \<^verbatim>\<open>try\<close> block of \<^verbatim>\<open>_finish_recording\<close>
  (\<^verbatim>\<open>np.concatenate\<close>, then \<^verbatim>\<open>executor.submit\<close>) raises: a condition of the
  environment that no method of the engine changes, and that does not hold for a freshly
  constructed engine.
\<close>

datatype engine_warning =
    WarnPrepareFailed
  | WarnBufferTooSmall nat

record 'f engine =
  is_speaking :: bool
  is_listening :: bool
  interrupt_requested :: bool
  audio_buffer :: "'f list"
  tts_audio_playing :: bool
  speech_frames :: int
  silence_frames :: int
  is_recording :: bool
  tts_energy_ema :: real
  tts_energy_initialized :: bool
  tts_started_at :: real
  ignore_until :: real
  noise_floor_ema :: real
  noise_floor_initialized :: bool
  total_frames :: nat
  detected_speech_count :: nat
  last_energy :: real
  has_on_speech_start :: bool
  has_on_interrupt :: bool
  dispatched :: "'f list list"
  speech_start_calls :: nat
  interrupt_calls :: nat
  handoff_fails :: bool
  warnings :: "engine_warning list"

text \<open>\<^verbatim>\<open>STSEngine.__init__\<close>; the two callbacks are attached by the caller afterwards.\<close>

definition init_engine :: "bool \<Rightarrow> bool \<Rightarrow> 'f engine" where
  "init_engine cb_start cb_interrupt =
     \<lparr>is_speaking = False, is_listening = True, interrupt_requested = False,
      audio_buffer = [], tts_audio_playing = False,
      speech_frames = 0, silence_frames = 0, is_recording = False,
      tts_energy_ema = 0, tts_energy_initialized = False,
      tts_started_at = 0, ignore_until = 0,
      noise_floor_ema = 0, noise_floor_initialized = False,
      total_frames = 0, detected_speech_count = 0, last_energy = 0,
      has_on_speech_start = cb_start, has_on_interrupt = cb_interrupt,
      dispatched = [], speech_start_calls = 0, interrupt_calls = 0,
      handoff_fails = False, warnings = []\<rparr>"

subsection \<open>Setters\<close>

text \<open>\<^verbatim>\<open>set_speaking(speaking)\<close>, called when TTS playback starts or stops.\<close>

definition set_speaking :: "bool \<Rightarrow> real \<Rightarrow> 'f engine \<Rightarrow> 'f engine" where
  "set_speaking speaking now s =
     (let s1 = s\<lparr>is_speaking := speaking, tts_audio_playing := speaking\<rparr>
      in if speaking
         then s1\<lparr>tts_started_at := now, tts_energy_initialized := False\<rparr>
         else s1\<lparr>tts_energy_initialized := False, tts_energy_ema := 0,
                 ignore_until := now + BARGE_IN_COOLDOWN_MS / 1000\<rparr>)"

text \<open>\<^verbatim>\<open>request_interrupt()\<close>: raise the flag and call the handler when one is set.\<close>

definition request_interrupt :: "'f engine \<Rightarrow> 'f engine" where
  "request_interrupt s =
     (let s1 = s\<lparr>interrupt_requested := True\<rparr>
      in if has_on_interrupt s1 then s1\<lparr>interrupt_calls := interrupt_calls s1 + 1\<rparr> else s1)"

text \<open>\<^verbatim>\<open>set_listening(listening)\<close>: muting drops the recording in progress.\<close>

definition set_listening :: "bool \<Rightarrow> 'f engine \<Rightarrow> 'f engine" where
  "set_listening listening s =
     (let s1 = s\<lparr>is_listening := listening\<rparr>
      in if \<not> is_listening s1
         then s1\<lparr>is_recording := False, audio_buffer := [],
                 speech_frames := 0, silence_frames := 0\<rparr>
         else s1)"

subsection \<open>Thresholds and barge-in detection\<close>

text \<open>\<^verbatim>\<open>_get_effective_threshold\<close> and its public alias \<^verbatim>\<open>get_vad_threshold\<close>.\<close>

definition get_effective_threshold :: "config \<Rightarrow> 'f engine \<Rightarrow> real" where
  "get_effective_threshold cfg s =
     (let base0 = real_of_int (SILENCE_THRESHOLD cfg);
          base = (if noise_floor_initialized s
                  then max base0 (noise_floor_ema s * NOISE_FLOOR_MULTIPLIER + NOISE_FLOOR_MARGIN)
                  else base0)
      in if is_speaking s then base + echo_threshold_boost else base)"

definition get_vad_threshold :: "config \<Rightarrow> 'f engine \<Rightarrow> real" where
  "get_vad_threshold cfg s = get_effective_threshold cfg s"

text \<open>
  The guard of \<^verbatim>\<open>_is_barge_in_speech\<close>: TTS has a start time (a zero timestamp is falsy
  in Python) and less than \<^verbatim>\<open>BARGE_IN_GUARD_MS\<close> have passed since.
\<close>

definition in_guard_window :: "real \<Rightarrow> 'f engine \<Rightarrow> bool" where
  "in_guard_window now s \<longleftrightarrow>
     tts_started_at s \<noteq> 0 \<and> now - tts_started_at s < BARGE_IN_GUARD_MS / 1000"

text \<open>
  \<^verbatim>\<open>_is_barge_in_speech(energy, base_threshold)\<close>. Inside the guard window it returns
  \<open>False\<close> and leaves the baseline alone; otherwise it first initialises or blends the
  TTS baseline with this frame's energy and then compares. The result is the verdict
  together with the updated engine.
\<close>

definition is_barge_in_speech :: "real \<Rightarrow> real \<Rightarrow> real \<Rightarrow> 'f engine \<Rightarrow> bool \<times> 'f engine" where
  "is_barge_in_speech now energy base_threshold s =
     (if in_guard_window now s
      then (False, s)
      else
        let s1 = (if \<not> tts_energy_initialized s
                  then s\<lparr>tts_energy_ema := energy, tts_energy_initialized := True\<rparr>
                  else s\<lparr>tts_energy_ema :=
                           (1 - TTS_BASELINE_EMA_ALPHA) * tts_energy_ema s
                           + TTS_BASELINE_EMA_ALPHA * energy\<rparr>);
            dynamic_threshold =
              max base_threshold (tts_energy_ema s1 * BARGE_IN_MULTIPLIER + BARGE_IN_DELTA)
        in (energy > dynamic_threshold, s1))"

text \<open>
  A sequence of calls of \<^verbatim>\<open>_is_barge_in_speech\<close>, one per frame; a frame is given as
  (time, energy, base threshold). The verdicts are returned in order with the final engine.
\<close>

fun barge_in_run :: "(real \<times> real \<times> real) list \<Rightarrow> 'f engine \<Rightarrow> bool list \<times> 'f engine" where
  "barge_in_run [] s = ([], s)"
| "barge_in_run ((now, energy, base_threshold) # fs) s =
     (let (b, s1) = is_barge_in_speech now energy base_threshold s;
          (bs, s2) = barge_in_run fs s1
      in (b # bs, s2))"

subsection \<open>The utterance segmenter\<close>

text \<open>\<^verbatim>\<open>deque.append\<close> on a deque with \<^verbatim>\<open>maxlen\<close>: a full deque drops its oldest item.\<close>

definition deque_append :: "'f list \<Rightarrow> 'f \<Rightarrow> 'f list" where
  "deque_append buf frame =
     (if length buf \<ge> MAX_RECORDING_FRAMES then tl buf @ [frame] else buf @ [frame])"

text \<open>
  \<^verbatim>\<open>_finish_recording\<close>. \<^verbatim>\<open>np.concatenate\<close> joins the buffered frames; the model keeps
  the list of frames, so that the length of a dispatched buffer is its number of frames.
  A buffer of more than 5 frames is handed to the executor; if that hand-off raises, the
  exception is caught and \<^verbatim>\<open>[WARN] Erro ao preparar audio para transcricao\<close> is printed.
  A shorter buffer is dropped and \<^verbatim>\<open>[WARN] Buffer muito pequeno (n frames), descartando\<close>
  is printed. The buffer is cleared in every case.
\<close>

definition finish_recording :: "'f engine \<Rightarrow> 'f engine" where
  "finish_recording s =
     (let s1 = s\<lparr>is_recording := False, speech_frames := 0, silence_frames := 0\<rparr>;
          buffer_size = length (audio_buffer s1);
          s2 = (if buffer_size > 5
                then (if handoff_fails s1
                      then s1\<lparr>warnings := warnings s1 @ [WarnPrepareFailed]\<rparr>
                      else s1\<lparr>dispatched := dispatched s1 @ [audio_buffer s1]\<rparr>)
                else s1\<lparr>warnings := warnings s1 @ [WarnBufferTooSmall buffer_size]\<rparr>)
      in s2\<lparr>audio_buffer := []\<rparr>)"

text \<open>
  The block that \<^verbatim>\<open>_process_frame\<close> repeats on each of its three early returns
  (listening disabled, post-TTS cooldown, TTS playing without barge-in speech).
\<close>

definition drop_and_reset :: "'f engine \<Rightarrow> 'f engine" where
  "drop_and_reset s =
     (let s1 = (if is_recording s then s\<lparr>is_recording := False, audio_buffer := []\<rparr> else s)
      in s1\<lparr>speech_frames := 0, silence_frames := 0\<rparr>)"

text \<open>The adaptive noise floor, updated only while idle (no TTS, no recording).\<close>

definition update_noise_floor :: "config \<Rightarrow> real \<Rightarrow> 'f engine \<Rightarrow> 'f engine" where
  "update_noise_floor cfg energy s =
     (if \<not> is_speaking s \<and> \<not> is_recording s then
        (if \<not> noise_floor_initialized s
         then s\<lparr>noise_floor_ema := energy, noise_floor_initialized := True\<rparr>
         else if energy \<le> real_of_int (SILENCE_THRESHOLD cfg) * 1.2
         then s\<lparr>noise_floor_ema :=
                  (1 - NOISE_FLOOR_EMA_ALPHA) * noise_floor_ema s
                  + NOISE_FLOOR_EMA_ALPHA * energy\<rparr>
         else s)
      else s)"

text \<open>The speech verdict of a frame that passed the two early returns.\<close>

definition classify :: "real \<Rightarrow> real \<Rightarrow> real \<Rightarrow> 'f engine \<Rightarrow> bool \<times> 'f engine" where
  "classify now energy threshold s =
     (if is_speaking s then is_barge_in_speech now energy threshold s
      else (energy > threshold, s))"

text \<open>The branch of \<^verbatim>\<open>_process_frame\<close> taken while not recording.\<close>

definition await_speech :: "config \<Rightarrow> 'f \<Rightarrow> bool \<Rightarrow> 'f engine \<Rightarrow> 'f engine" where
  "await_speech cfg frame is_speech s =
     (if is_speech then
        let s1 = s\<lparr>speech_frames := speech_frames s + 1\<rparr>
        in if speech_frames s1 \<ge> SPEECH_START_FRAMES cfg then
             let s2 = s1\<lparr>is_recording := True, silence_frames := 0, audio_buffer := [frame],
                        detected_speech_count := detected_speech_count s1 + 1\<rparr>;
                 s3 = (if is_speaking s2 then request_interrupt s2 else s2)
             in if has_on_speech_start s3
                then s3\<lparr>speech_start_calls := speech_start_calls s3 + 1\<rparr>
                else s3
           else s1
      else s\<lparr>speech_frames := max 0 (speech_frames s - 1)\<rparr>)"

text \<open>The branch of \<^verbatim>\<open>_process_frame\<close> taken while recording.\<close>

definition collect_audio :: "config \<Rightarrow> 'f \<Rightarrow> bool \<Rightarrow> 'f engine \<Rightarrow> 'f engine" where
  "collect_audio cfg frame is_speech s =
     (let s1 = s\<lparr>audio_buffer := deque_append (audio_buffer s) frame\<rparr>;
          s2 = (if is_speech then s1\<lparr>silence_frames := 0\<rparr>
                else
                  let s1' = s1\<lparr>silence_frames := silence_frames s1 + 1\<rparr>
                  in if silence_frames s1' \<ge> SILENCE_END_FRAMES cfg
                     then finish_recording s1' else s1')
      in if length (audio_buffer s2) \<ge> MAX_RECORDING_FRAMES
         then finish_recording s2 else s2)"

text \<open>
  The post-TTS cooldown test of \<^verbatim>\<open>_process_frame\<close>: a deadline is set (non-zero) and
  not yet reached.
\<close>

definition in_cooldown :: "real \<Rightarrow> 'f engine \<Rightarrow> bool" where
  "in_cooldown now s \<longleftrightarrow> ignore_until s \<noteq> 0 \<and> now < ignore_until s"

text \<open>\<^verbatim>\<open>_process_frame(frame, energy, threshold)\<close>.\<close>

definition process_frame ::
    "config \<Rightarrow> real \<Rightarrow> 'f \<Rightarrow> real \<Rightarrow> real \<Rightarrow> 'f engine \<Rightarrow> 'f engine" where
  "process_frame cfg now frame energy threshold s0 =
     (let s = s0\<lparr>last_energy := energy\<rparr>
      in if \<not> is_listening s then drop_and_reset s
         else if in_cooldown now s then drop_and_reset s
         else
           let s1 = update_noise_floor cfg energy s;
               (is_speech, s2) = classify now energy threshold s1
           in if is_speaking s2 \<and> \<not> is_speech then drop_and_reset s2
              else if \<not> is_recording s2 then await_speech cfg frame is_speech s2
              else collect_audio cfg frame is_speech s2)"

text \<open>
  One turn of the capture loop of \<^verbatim>\<open>_audio_loop\<close> on a non-empty frame whose energy has
  been computed: the threshold is read from the engine, the frame is counted and processed.
\<close>

definition audio_loop_step :: "config \<Rightarrow> real \<Rightarrow> 'f \<Rightarrow> real \<Rightarrow> 'f engine \<Rightarrow> 'f engine" where
  "audio_loop_step cfg now frame energy s =
     (let threshold = get_effective_threshold cfg s;
          s1 = s\<lparr>total_frames := total_frames s + 1\<rparr>
      in process_frame cfg now frame energy threshold s1)"

subsection \<open>Runs of the engine\<close>

text \<open>
  What happens to an engine between construction and shutdown is a sequence of events:
  the capture thread processes a frame (\<^verbatim>\<open>_process_frame\<close> at a time, with the frame's
  energy and the threshold it is compared with), or another thread calls a setter. All
  three take the same lock, so the events are totally ordered.
\<close>

datatype 'f event =
    Frame real 'f real real
  | SetSpeaking bool real
  | SetListening bool

fun step :: "config \<Rightarrow> 'f engine \<Rightarrow> 'f event \<Rightarrow> 'f engine" where
  "step cfg s (Frame now frame energy threshold) = process_frame cfg now frame energy threshold s"
| "step cfg s (SetSpeaking speaking now) = set_speaking speaking now s"
| "step cfg s (SetListening listening) = set_listening listening s"

definition run :: "config \<Rightarrow> 'f engine \<Rightarrow> 'f event list \<Rightarrow> 'f engine" where
  "run cfg s evs = foldl (step cfg) s evs"

text \<open>
  How \<^verbatim>\<open>_process_frame\<close> classifies a frame in a given engine state: \<open>Ignored\<close> on the
  two first early returns (listening disabled, cooldown), otherwise the value of its local
  \<^verbatim>\<open>is_speech\<close>.
\<close>

datatype verdict = Ignored | Speech | Silence

definition frame_verdict :: "config \<Rightarrow> real \<Rightarrow> real \<Rightarrow> real \<Rightarrow> 'f engine \<Rightarrow> verdict" where
  "frame_verdict cfg now energy threshold s0 =
     (let s = s0\<lparr>last_energy := energy\<rparr>
      in if \<not> is_listening s then Ignored
         else if in_cooldown now s then Ignored
         else if fst (classify now energy threshold (update_noise_floor cfg energy s))
              then Speech else Silence)"

text \<open>The verdicts of the frames of a run, in order (setter calls are not frames).\<close>

fun verdicts :: "config \<Rightarrow> 'f engine \<Rightarrow> 'f event list \<Rightarrow> verdict list" where
  "verdicts cfg s [] = []"
| "verdicts cfg s (Frame now frame energy threshold # evs) =
     frame_verdict cfg now energy threshold s
       # verdicts cfg (step cfg s (Frame now frame energy threshold)) evs"
| "verdicts cfg s (ev # evs) = verdicts cfg (step cfg s ev) evs"

text \<open>The number of consecutive frames with verdict \<open>v\<close> that end a list of verdicts.\<close>

definition trailing :: "verdict \<Rightarrow> verdict list \<Rightarrow> nat" where
  "trailing v vs = length (takeWhile (\<lambda>x. x = v) (rev vs))"

section \<open>Text helpers\<close>

text \<open>
  The fragments handled by the debounce buffer are modelled as \<open>string\<close>, one \<open>char\<close>
  per code point, for ASCII text: \<^verbatim>\<open>str.strip\<close> and \<^verbatim>\<open>str.split\<close> are given their
  ASCII behaviour (the whitespace characters are the ASCII ones for which \<^verbatim>\<open>str.isspace\<close>
  holds). Fragments with code points beyond ASCII are outside that model.
\<close>

definition is_space :: "char \<Rightarrow> bool" where
  "is_space c \<longleftrightarrow>
     c \<in> set [CHR 0x09, CHR 0x0A, CHR 0x0B, CHR 0x0C, CHR 0x0D,
               CHR 0x1C, CHR 0x1D, CHR 0x1E, CHR 0x1F, CHR '' '']"

text \<open>\<^verbatim>\<open>s.strip()\<close>\<close>

definition py_strip :: "string \<Rightarrow> string" where
  "py_strip s = rev (dropWhile is_space (rev (dropWhile is_space s)))"




text \<open>\<^verbatim>\<open>sep.join(parts)\<close>\<close>

fun py_join :: "string \<Rightarrow> string list \<Rightarrow> string" where
  "py_join sep [] = []"
| "py_join sep [x] = x"
| "py_join sep (x # y # ys) = x @ sep @ py_join sep (y # ys)"

section \<open>The transcription gate (STSEngine.\_transcribe\_async)\<close>

text \<open>
  In the gate a Python string is the list of its Unicode code points, so that \<^verbatim>\<open>len\<close> is
  the length of the list for every text a provider can return. \<open>lit\<close> reads a string
  literal of the source file, which is ASCII, as such a list.
\<close>

type_synonym pystr = "nat list"

definition lit :: "string \<Rightarrow> pystr" where
  "lit s = map of_char s"

text \<open>
  The literal set \<^verbatim>\<open>hallucinations\<close> of \<^verbatim>\<open>_transcribe_async\<close>, as the source file has it.
\<close>

definition hallucinations :: "pystr list" where
  "hallucinations =
     map lit
       [''obrigado'', ''muito obrigado'', ''de nada'', ''valeu'',
        ''thank you'', ''thanks for watching'', ''you're welcome'',
        ''thanks'', ''bye'', ''tchau'', ''...'', ''[silncio]'', ''[pausa]'']"

text \<open>
  The provider call \<^verbatim>\<open>groq_client.audio.transcriptions.create(...)\<close> followed by the read of
  \<^verbatim>\<open>transcription.text\<close> either raises (network or provider error, malformed response) or
  yields a text. The provider is a parameter: a function from the audio to its outcome.
\<close>

datatype provider_result = ProviderError | ProviderText pystr

text \<open>The lines the method prints.\<close>

datatype log_line =
    LogNoClient
  | LogEmptyAudio
  | LogTranscript pystr
  | LogTranscriptionError
  | LogCallbackError

text \<open>
  What one call does: how many times it called the provider, the texts it passed to
  \<^verbatim>\<open>on_speech_end\<close>, and what it printed.
\<close>

record gate_result =
  provider_calls :: nat
  emitted :: "pystr list"
  printed :: "log_line list"

text \<open>
  \<^verbatim>\<open>_transcribe_async(audio_data)\<close>. Python's built-in \<^verbatim>\<open>str.strip\<close> and \<^verbatim>\<open>str.lower\<close>
  are the parameters \<open>str_strip\<close> and \<open>str_lower\<close>: what they do on the whole of Unicode
  is not written out here, and nothing below depends on it. \<open>has_client\<close> says whether
  the module-level \<^verbatim>\<open>groq_client\<close> exists; \<open>on_speech_end\<close> is the optional callback,
  given as the predicate telling on which texts it raises (the method catches that and
  prints a warning); \<open>audio_data\<close> is \<open>None\<close> or the samples.
\<close>

definition transcribe_async ::
    "(pystr \<Rightarrow> pystr) \<Rightarrow> (pystr \<Rightarrow> pystr) \<Rightarrow> bool \<Rightarrow> ('a list \<Rightarrow> provider_result)
       \<Rightarrow> (pystr \<Rightarrow> bool) option \<Rightarrow> 'a list option \<Rightarrow> gate_result" where
  "transcribe_async str_strip str_lower has_client provider on_speech_end audio_data =
     (if \<not> has_client
      then \<lparr>provider_calls = 0, emitted = [], printed = [LogNoClient]\<rparr>
      else case audio_data of
        None \<Rightarrow> \<lparr>provider_calls = 0, emitted = [], printed = [LogEmptyAudio]\<rparr>
      | Some audio \<Rightarrow>
          if length audio = 0
          then \<lparr>provider_calls = 0, emitted = [], printed = [LogEmptyAudio]\<rparr>
          else (case provider audio of
             ProviderError \<Rightarrow>
               \<lparr>provider_calls = 1, emitted = [], printed = [LogTranscriptionError]\<rparr>
           | ProviderText raw \<Rightarrow>
               let text = str_lower (str_strip raw)
               in if text \<in> set hallucinations \<or> length text < 2
                  then \<lparr>provider_calls = 1, emitted = [], printed = []\<rparr>
                  else (case on_speech_end of
                     None \<Rightarrow>
                       \<lparr>provider_calls = 1, emitted = [], printed = [LogTranscript text]\<rparr>
                   | Some raises \<Rightarrow>
                       \<lparr>provider_calls = 1, emitted = [text],
                        printed = LogTranscript text
                                    # (if raises text then [LogCallbackError] else [])\<rparr>)))"

section \<open>The debounce buffer of the orchestrator (sts\_orchestrator.py)\<close>



text \<open>
  The state of the coalescer: the pending fragments \<^verbatim>\<open>_voice_buffer_parts\<close>; the pending
  timer \<^verbatim>\<open>_voice_debounce_task\<close>, as the time at which its \<^verbatim>\<open>asyncio.sleep\<close> ends
  (\<open>None\<close> when there is no task or it is done or cancelled); and the texts passed to
  \<^verbatim>\<open>_process_user_input\<close>, in order.
\<close>

record debouncer =
  voice_buffer_parts :: "string list"
  voice_debounce_task :: "real option"
  forwarded :: "string list"


text \<open>\<^verbatim>\<open>_process_user_input(text)\<close> is the intent pipeline; the model records the call.\<close>

definition process_user_input :: "string \<Rightarrow> debouncer \<Rightarrow> debouncer" where
  "process_user_input text st = st\<lparr>forwarded := forwarded st @ [text]\<rparr>"

text \<open>\<^verbatim>\<open>_flush_voice_buffer()\<close>\<close>

definition flush_voice_buffer :: "debouncer \<Rightarrow> debouncer" where
  "flush_voice_buffer st =
     (if voice_buffer_parts st = [] then st
      else
        let merged = py_strip (py_join '' '' (voice_buffer_parts st));
            st1 = st\<lparr>voice_buffer_parts := []\<rparr>
        in if merged \<noteq> [] then process_user_input merged st1 else st1)"










section \<open>The interrupt handler of the orchestrator\<close>

text \<open>
  What \<^verbatim>\<open>CronoSTSOrchestrator._on_interrupt\<close> reads and writes: its own
  \<^verbatim>\<open>_tts_active\<close>, \<^verbatim>\<open>_last_interrupt_at\<close> and \<^verbatim>\<open>_interrupt_cooldown_sec\<close>, and the
  engine's \<^verbatim>\<open>is_speaking\<close>. Two counters record its effects: the calls of
  \<^verbatim>\<open>stop_speaking()\<close> and the lines written with \<^verbatim>\<open>_log\<close>.
\<close>

record interrupt_ctx =
  tts_active :: bool
  engine_is_speaking :: bool
  last_interrupt_at :: real
  interrupt_cooldown_sec :: real
  stop_speaking_calls :: nat
  interrupt_logs :: nat

text \<open>
  \<^verbatim>\<open>stop_speaking\<close> of \<^verbatim>\<open>streaming_tts.py\<close> calls \<^verbatim>\<open>sd.stop()\<close> unguarded, so it can
  raise; \<open>sd_stop_raises\<close> says whether it does. An exception leaves the handler at once.
\<close>

datatype interrupt_error = PlaybackStopFailed

definition on_interrupt :: "bool \<Rightarrow> real \<Rightarrow> interrupt_ctx \<Rightarrow> interrupt_error + interrupt_ctx" where
  "on_interrupt sd_stop_raises now c =
     (if now - last_interrupt_at c < interrupt_cooldown_sec c then Inr c
      else
        let c1 = c\<lparr>last_interrupt_at := now\<rparr>
        in if \<not> (tts_active c1 \<or> engine_is_speaking c1) then Inr c1
           else
             let c2 = c1\<lparr>stop_speaking_calls := stop_speaking_calls c1 + 1\<rparr>
             in if sd_stop_raises then Inl PlaybackStopFailed
                else Inr (c2\<lparr>interrupt_logs := interrupt_logs c2 + 1\<rparr>))"

text \<open>The orchestrator as its constructor leaves it, with nothing playing.\<close>

definition idle_ctx :: interrupt_ctx where
  "idle_ctx =
     \<lparr>tts_active = False, engine_is_speaking = False, last_interrupt_at = 0,
      interrupt_cooldown_sec = 1.2, stop_speaking_calls = 0, interrupt_logs = 0\<rparr>"

subsection \<open>Notions used in the statements and proofs about the engine\<close>

text \<open>
  The part of the engine state that the segmenter properties speak about: recording flag,
  speech counter, silence counter, buffer, and the buffers handed to transcription.
\<close>

definition core :: "'f engine \<Rightarrow> bool \<times> int \<times> int \<times> 'f list \<times> 'f list list" where
  "core s = (is_recording s, speech_frames s, silence_frames s, audio_buffer s, dispatched s)"

text \<open>
  The transition that \<^verbatim>\<open>_process_frame\<close> induces on that part, as a function of the frame's
  verdict, of whether TTS is playing and of whether the hand-off to the executor raises; lemma \<open>core_process_frame\<close> below proves that
  it is exactly what the embedded method does.
\<close>

definition seg_step ::
    "config \<Rightarrow> verdict \<Rightarrow> bool \<Rightarrow> bool \<Rightarrow> 'f \<Rightarrow> bool \<times> int \<times> int \<times> 'f list \<times> 'f list list
       \<Rightarrow> bool \<times> int \<times> int \<times> 'f list \<times> 'f list list" where
  "seg_step cfg v speaking fails f c =
    (case c of (rec, sp, si, buf, d) \<Rightarrow>
      if v = Ignored \<or> (speaking \<and> v = Silence) then (False, 0, 0, if rec then [] else buf, d)
      else if \<not> rec then
        (if v = Speech
         then (if sp + 1 \<ge> SPEECH_START_FRAMES cfg then (True, sp + 1, 0, [f], d)
               else (rec, sp + 1, si, buf, d))
         else (rec, max 0 (sp - 1), si, buf, d))
      else
        (let buf' = deque_append buf f;
             fin = (False, 0, 0, [], if length buf' > 5 \<and> \<not> fails then d @ [buf'] else d)
         in if v = Speech
            then (if length buf' \<ge> MAX_RECORDING_FRAMES then fin else (rec, sp, 0, buf', d))
            else if si + 1 \<ge> SILENCE_END_FRAMES cfg then fin
            else if length buf' \<ge> MAX_RECORDING_FRAMES then fin
            else (rec, sp, si + 1, buf', d)))"

text \<open>The verdict an event adds to the verdicts of a run: one for a frame, none for a setter.\<close>

fun last_verdict :: "config \<Rightarrow> 'f engine \<Rightarrow> 'f event \<Rightarrow> verdict list" where
  "last_verdict cfg s (Frame now f e th) = [frame_verdict cfg now e th s]"
| "last_verdict cfg s _ = []"

text \<open>The buffer is non-empty exactly while recording.\<close>

definition buffer_inv :: "'f engine \<Rightarrow> bool" where
  "buffer_inv s \<longleftrightarrow> (audio_buffer s \<noteq> []) = is_recording s"

text \<open>
  Two concrete engines used as test inputs: TTS playback started at second 100 on a fresh
  engine, and the same engine after one echo frame of energy 50 at second 101 has
  initialised the TTS baseline.
\<close>

definition tts_playing :: "nat engine" where
  "tts_playing = set_speaking True 100 (init_engine True True)"

definition echo_tracked :: "nat engine" where
  "echo_tracked =
     snd (is_barge_in_speech 101 50 (get_effective_threshold default_config tts_playing)
            tts_playing)"

text \<open>
  The invariant behind the hysteresis: while recording, the silence counter is at most the
  number of silence verdicts that end the run; while not recording and with a speech-confirm
  count of 2, the speech counter is at most 1 and at most the number of speech verdicts that
  end the run.
\<close>

definition seg_inv ::
    "config \<Rightarrow> verdict list \<Rightarrow> bool \<times> int \<times> int \<times> 'f list \<times> 'f list list \<Rightarrow> bool" where
  "seg_inv cfg vs c =
     (case c of (rec, sp, si, buf, d) \<Rightarrow>
        (rec \<longrightarrow> si \<le> int (trailing Silence vs)) \<and>
        (\<not> rec \<and> SPEECH_START_FRAMES cfg = 2 \<longrightarrow> sp \<le> 1 \<and> sp \<le> int (trailing Speech vs)))"

text \<open>
  Frame events whose energy is above (\<open>loud\<close>) or not above (\<open>quiet\<close>) the threshold they
  are compared with, and the frames carried by a list of events.
\<close>

fun loud :: "'f event \<Rightarrow> bool" where
  "loud (Frame now f e th) = (e > th)"
| "loud _ = False"

fun quiet :: "'f event \<Rightarrow> bool" where
  "quiet (Frame now f e th) = (e \<le> th)"
| "quiet _ = False"

fun payload :: "'f event \<Rightarrow> 'f list" where
  "payload (Frame now f e th) = [f]"
| "payload _ = []"

definition payloads :: "'f event list \<Rightarrow> 'f list" where
  "payloads evs = concat (map payload evs)"

text \<open>
  An engine with TTS silent, listening enabled, no cooldown deadline set and a working
  hand-off to the executor.
\<close>

definition plain :: "'f engine \<Rightarrow> bool" where
  "plain s \<longleftrightarrow>
     \<not> is_speaking s \<and> is_listening s \<and> ignore_until s = 0 \<and> \<not> handoff_fails s"

text \<open>
  Concrete runs used as test inputs; frames are numbered, one every 30 ms.
  \<open>barge_in_events\<close>: a quiet idle frame, TTS starts, one echo frame, two loud frames
  (barge-in confirmed on the second); \<open>echo_dip\<close> is one more frame at echo level.
  \<open>dip_events\<close>, for a speech-confirm count of 3: quiet, loud, loud, quiet, loud;
  \<open>after_dip\<close> is one more loud frame.
  \<open>turn_speech\<close> and \<open>turn_silence\<close>: the twelve loud and sixteen quiet frames of a
  normal turn.
  \<open>noise_burst\<close>, for a silence-confirm count of 2: quiet, loud, loud, quiet, quiet; the
  recording it starts is finalised with three frames.
  \<open>six_frames\<close>: an engine recording with six buffered frames; \<open>six_frames_no_executor\<close>:
  the same where the hand-off to the executor raises.
\<close>

definition barge_in_events :: "nat event list" where
  "barge_in_events =
     [Frame 99 0 10 250, SetSpeaking True 100,
      Frame 101 1 100 450, Frame 101.03 2 2000 450, Frame 101.06 3 2000 450]"

definition echo_dip :: "nat event" where
  "echo_dip = Frame 101.09 4 100 450"

definition three_frame_config :: config where
  "three_frame_config = default_config\<lparr>SPEECH_START_FRAMES := 3\<rparr>"

definition dip_events :: "nat event list" where
  "dip_events =
     [Frame 1 0 10 250, Frame 1.03 1 1000 250, Frame 1.06 2 1000 250,
      Frame 1.09 3 10 250, Frame 1.12 4 1000 250]"

definition after_dip :: "nat event" where
  "after_dip = Frame 1.15 5 1000 250"

definition turn_speech :: "nat event list" where
  "turn_speech =
     [Frame 1.03 1 1000 250, Frame 1.06 2 1000 250, Frame 1.09 3 1000 250,
      Frame 1.12 4 1000 250, Frame 1.15 5 1000 250, Frame 1.18 6 1000 250,
      Frame 1.21 7 1000 250, Frame 1.24 8 1000 250, Frame 1.27 9 1000 250,
      Frame 1.30 10 1000 250, Frame 1.33 11 1000 250, Frame 1.36 12 1000 250]"

definition turn_silence :: "nat event list" where
  "turn_silence =
     [Frame 1.39 13 10 250, Frame 1.42 14 10 250, Frame 1.45 15 10 250,
      Frame 1.48 16 10 250, Frame 1.51 17 10 250, Frame 1.54 18 10 250,
      Frame 1.57 19 10 250, Frame 1.60 20 10 250, Frame 1.63 21 10 250,
      Frame 1.66 22 10 250, Frame 1.69 23 10 250, Frame 1.72 24 10 250,
      Frame 1.75 25 10 250, Frame 1.78 26 10 250, Frame 1.81 27 10 250,
      Frame 1.84 28 10 250]"

definition short_silence_config :: config where
  "short_silence_config = default_config\<lparr>SILENCE_END_FRAMES := 2\<rparr>"

definition noise_burst :: "nat event list" where
  "noise_burst =
     [Frame 1 0 10 250, Frame 1.03 1 1000 250, Frame 1.06 2 1000 250,
      Frame 1.09 3 10 250, Frame 1.12 4 10 250]"

definition six_frames :: "nat engine" where
  "six_frames =
     (init_engine True True)\<lparr>is_recording := True, audio_buffer := [1, 2, 3, 4, 5, 6]\<rparr>"

definition six_frames_no_executor :: "nat engine" where
  "six_frames_no_executor = six_frames\<lparr>handoff_fails := True\<rparr>"

subsection \<open>Notions used in the statements and proofs about the orchestrator and the gate\<close>





text \<open>
  Test inputs for the gate. \<open>ascii_strip\<close> and \<open>ascii_lower\<close> are what \<^verbatim>\<open>str.strip\<close>
  and \<^verbatim>\<open>str.lower\<close> do on ASCII text (they are used on ASCII text only). The provider
  \<open>heard\<close> hears a farewell in the audio \<open>[2]\<close>, a command in \<open>[3]\<close>, a single letter in
  \<open>[4]\<close>, and fails on anything else.
\<close>

definition ascii_space :: "nat \<Rightarrow> bool" where
  "ascii_space c \<longleftrightarrow> c \<in> set [9, 10, 11, 12, 13, 28, 29, 30, 31, 32]"

definition ascii_strip :: "pystr \<Rightarrow> pystr" where
  "ascii_strip s = rev (dropWhile ascii_space (rev (dropWhile ascii_space s)))"

definition ascii_lower :: "pystr \<Rightarrow> pystr" where
  "ascii_lower s = map (\<lambda>c. if 65 \<le> c \<and> c \<le> 90 then c + 32 else c) s"

definition heard :: "nat list \<Rightarrow> provider_result" where
  "heard audio =
     (if audio = [2] then ProviderText (lit ''  Tchau '')
      else if audio = [3] then ProviderText (lit '' Abrir o navegador'')
      else if audio = [4] then ProviderText (lit ''A'')
      else ProviderError)"

section \<open>Properties of the engine\<close>

subsection \<open>The effective threshold\<close>

text \<open>
  Claim C5. Once the noise floor is initialised, \<^verbatim>\<open>get_vad_threshold\<close> returns
  \<open>max(SILENCE_THRESHOLD, noise_floor_ema * 1.8 + 40)\<close> while TTS is not playing, and
  that value plus the echo boost 200 while TTS is playing.
\<close>

theorem get_vad_threshold_formula:
  "noise_floor_initialized s \<Longrightarrow>
   get_vad_threshold cfg s =
     (if is_speaking s
      then max (real_of_int (SILENCE_THRESHOLD cfg)) (noise_floor_ema s * 1.8 + 40) + 200
      else max (real_of_int (SILENCE_THRESHOLD cfg)) (noise_floor_ema s * 1.8 + 40))"
  by (simp add: get_vad_threshold_def get_effective_threshold_def Let_def
      NOISE_FLOOR_MULTIPLIER_def NOISE_FLOOR_MARGIN_def echo_threshold_boost_def)

text \<open>
  The formula at two engines whose noise floor is 200: idle, where the floor term 400 wins
  over the static 250, and with TTS playing, where 200 is added.
\<close>

theorem get_vad_threshold_formula_witness:
  "get_vad_threshold default_config
     ((init_engine True True :: nat engine)
        \<lparr>noise_floor_ema := 200, noise_floor_initialized := True\<rparr>) = 400 \<and>
   get_vad_threshold default_config
     ((init_engine True True :: nat engine)
        \<lparr>noise_floor_ema := 200, noise_floor_initialized := True, is_speaking := True\<rparr>) = 600"
  using
    get_vad_threshold_formula [of "(init_engine True True :: nat engine)
        \<lparr>noise_floor_ema := 200, noise_floor_initialized := True\<rparr>" default_config]
    get_vad_threshold_formula [of "(init_engine True True :: nat engine)
        \<lparr>noise_floor_ema := 200, noise_floor_initialized := True, is_speaking := True\<rparr>"
        default_config]
  by (simp add: init_engine_def default_config_def)

subsection \<open>Barge-in detection\<close>

lemma const_values:
  "BARGE_IN_MULTIPLIER = 8 / 5" "BARGE_IN_DELTA = 200" "TTS_BASELINE_EMA_ALPHA = 3 / 20"
  by (simp_all add: BARGE_IN_MULTIPLIER_def BARGE_IN_DELTA_def TTS_BASELINE_EMA_ALPHA_def)

text \<open>The three ways through \<^verbatim>\<open>_is_barge_in_speech\<close>.\<close>

lemma barge_in_guarded:
  "in_guard_window now s \<Longrightarrow> is_barge_in_speech now e thr s = (False, s)"
  by (simp add: is_barge_in_speech_def)

lemma barge_in_first:
  "\<not> in_guard_window now s \<Longrightarrow> \<not> tts_energy_initialized s \<Longrightarrow>
   is_barge_in_speech now e thr s =
     (e > max thr (e * BARGE_IN_MULTIPLIER + BARGE_IN_DELTA),
      s\<lparr>tts_energy_ema := e, tts_energy_initialized := True\<rparr>)"
  by (simp add: is_barge_in_speech_def Let_def)

lemma barge_in_blend:
  "\<not> in_guard_window now s \<Longrightarrow> tts_energy_initialized s \<Longrightarrow>
   is_barge_in_speech now e thr s =
     (e > max thr (((1 - TTS_BASELINE_EMA_ALPHA) * tts_energy_ema s
                     + TTS_BASELINE_EMA_ALPHA * e) * BARGE_IN_MULTIPLIER + BARGE_IN_DELTA),
      s\<lparr>tts_energy_ema :=
          (1 - TTS_BASELINE_EMA_ALPHA) * tts_energy_ema s + TTS_BASELINE_EMA_ALPHA * e\<rparr>)"
  by (simp add: is_barge_in_speech_def Let_def)

text \<open>The arithmetic: an echo never clears its own bar, a jump always clears the dynamic one.\<close>

lemma echo_margin:
  "0 \<le> (e::real) \<Longrightarrow> \<not> e > max thr (e * BARGE_IN_MULTIPLIER + BARGE_IN_DELTA)"
  unfolding const_values by (simp add: max_def)

lemma blend_same: "(1 - TTS_BASELINE_EMA_ALPHA) * (e::real) + TTS_BASELINE_EMA_ALPHA * e = e"
  by (simp add: algebra_simps)

lemma jump_margin:
  "0 \<le> (b::real) \<Longrightarrow>
   ((1 - TTS_BASELINE_EMA_ALPHA) * b + TTS_BASELINE_EMA_ALPHA * (b * 2 + 300))
      * BARGE_IN_MULTIPLIER + BARGE_IN_DELTA < b * 2 + 300"
  unfolding const_values by (simp add: algebra_simps)

lemma barge_step_echo:
  assumes "0 \<le> energy" "tts_energy_initialized s \<longrightarrow> tts_energy_ema s = energy"
  shows "fst (is_barge_in_speech now energy thr s) = False"
proof (cases "in_guard_window now s")
  case True
  then show ?thesis by (simp add: barge_in_guarded)
next
  case False
  show ?thesis
  proof (cases "tts_energy_initialized s")
    case True
    with assms False show ?thesis
      using echo_margin[OF assms(1), of thr]
      by (simp add: barge_in_blend blend_same del: max_less_iff_conj)
  next
    case uninit: False
    with assms False show ?thesis
      using echo_margin[OF assms(1), of thr]
      by (simp add: barge_in_first del: max_less_iff_conj)
  qed
qed

lemma barge_jump:
  assumes "0 \<le> tts_energy_ema s" "tts_energy_initialized s" "\<not> in_guard_window now s"
  shows "fst (is_barge_in_speech now (tts_energy_ema s * 2 + 300) thr s)
           = (tts_energy_ema s * 2 + 300 > thr)"
  using jump_margin[OF assms(1)] assms(2,3)
  by (simp add: barge_in_blend)

text \<open>A run of echo frames: every verdict is negative and the baseline stays where it was.\<close>

lemma barge_in_run_echo:
  assumes "0 \<le> b"
  shows "(tts_energy_initialized s \<longrightarrow> tts_energy_ema s = b) \<Longrightarrow>
     \<forall>f\<in>set echo. fst (snd f) = b \<Longrightarrow>
     fst (barge_in_run echo s) = replicate (length echo) False \<and>
     (tts_energy_initialized (snd (barge_in_run echo s))
        \<longrightarrow> tts_energy_ema (snd (barge_in_run echo s)) = b) \<and>
     tts_started_at (snd (barge_in_run echo s)) = tts_started_at s"
proof (induction echo arbitrary: s)
  case Nil
  then show ?case by simp
next
  case (Cons fr echo)
  obtain now e thr where fr: "fr = (now, e, thr)" by (cases fr) auto
  have e: "e = b" using Cons.prems(2) fr by simp
  let ?r = "is_barge_in_speech now b thr s"
  have v: "fst ?r = False" using barge_step_echo[OF assms Cons.prems(1)] .
  have st: "tts_energy_initialized (snd ?r) \<longrightarrow> tts_energy_ema (snd ?r) = b"
    using Cons.prems(1)
    by (cases "in_guard_window now s"; cases "tts_energy_initialized s")
       (simp_all add: barge_in_guarded barge_in_first barge_in_blend blend_same)
  have ts: "tts_started_at (snd ?r) = tts_started_at s"
    by (cases "in_guard_window now s"; cases "tts_energy_initialized s")
       (simp_all add: barge_in_guarded barge_in_first barge_in_blend)
  have rest: "\<forall>f\<in>set echo. fst (snd f) = b" using Cons.prems(2) by simp
  from Cons.IH[OF st rest] v ts show ?case
    by (simp add: fr e case_prod_beta Let_def)
qed

lemma tts_playing_fields:
  "is_speaking tts_playing" "tts_started_at tts_playing = 100"
  "\<not> tts_energy_initialized tts_playing" "\<not> noise_floor_initialized tts_playing"
  by (simp_all add: tts_playing_def set_speaking_def init_engine_def Let_def)

lemma thr_tts_playing: "get_effective_threshold default_config tts_playing = 450"
  by (simp add: get_effective_threshold_def tts_playing_fields default_config_def
      echo_threshold_boost_def Let_def)

lemma not_guard_101: "\<not> in_guard_window 101 tts_playing"
  by (simp add: in_guard_window_def tts_playing_fields BARGE_IN_GUARD_MS_def)

lemma echo_tracked_fields:
  "is_speaking echo_tracked" "tts_started_at echo_tracked = 100"
  "tts_energy_initialized echo_tracked" "tts_energy_ema echo_tracked = 50"
  by (simp_all add: echo_tracked_def barge_in_first[OF not_guard_101] tts_playing_fields)

text \<open>
  Claim C3 as stated fails. TTS has been playing for two seconds, the tracked baseline is
  50, and the threshold handed to the detector is the engine's own effective threshold
  (450: static 250 plus the echo boost). A frame of energy \<open>50 * 2 + 300 = 400\<close> clears
  the dynamic bar but not that floor, and the detector answers \<open>False\<close>.
\<close>

theorem barge_in_margin_counterexample:
  "is_speaking echo_tracked \<and> tts_energy_initialized echo_tracked \<and>
   \<not> in_guard_window 102 echo_tracked \<and>
   \<not> fst (is_barge_in_speech 102 (tts_energy_ema echo_tracked * 2 + 300)
            (get_effective_threshold default_config tts_playing) echo_tracked)"
proof -
  have g: "\<not> in_guard_window 102 echo_tracked"
    by (simp add: in_guard_window_def echo_tracked_fields BARGE_IN_GUARD_MS_def)
  show ?thesis
    using g by (simp add: echo_tracked_fields thr_tts_playing barge_in_blend const_values)
qed

text \<open>
  Claim C3, amended. Energies are root-mean-squares, hence non-negative. While every frame
  carries exactly the tracked baseline \<open>b\<close>, the detector answers \<open>False\<close> on each of them
  (inside or outside the guard window, initialised or not). When, with the baseline
  initialised and the guard window over, the energy then jumps to \<open>b * 2 + 300\<close>, the
  detector answers \<open>True\<close> if and only if that energy also exceeds the base threshold it
  was given: the dynamic bar is always cleared, the floor \<open>max(base_threshold, ...)\<close> may
  not be.
\<close>

theorem barge_in_requires_margin:
  assumes "0 \<le> b"
    and "tts_energy_initialized s \<longrightarrow> tts_energy_ema s = b"
    and "\<forall>f\<in>set echo. fst (snd f) = b"
  shows "fst (barge_in_run echo s) = replicate (length echo) False \<and>
         (tts_energy_initialized (snd (barge_in_run echo s)) \<and>
          \<not> in_guard_window now (snd (barge_in_run echo s)) \<longrightarrow>
            fst (is_barge_in_speech now (b * 2 + 300) thr (snd (barge_in_run echo s)))
              = (thr < b * 2 + 300))"
proof -
  let ?s' = "snd (barge_in_run echo s)"
  note r = barge_in_run_echo[OF assms]
  have "fst (is_barge_in_speech now (b * 2 + 300) thr ?s') = (thr < b * 2 + 300)"
    if i: "tts_energy_initialized ?s'" and g: "\<not> in_guard_window now ?s'"
  proof -
    have eq: "tts_energy_ema ?s' = b" using r i by simp
    have "0 \<le> tts_energy_ema ?s'" using assms(1) eq by simp
    from barge_jump[OF this i g, of thr] show ?thesis by (simp add: eq)
  qed
  with r show ?thesis by blast
qed

text \<open>
  The amended claim on a run: baseline 500 set by a first frame one second into playback,
  two echo frames of energy 500 against the threshold 450, then a jump to 1300.
\<close>

theorem barge_in_requires_margin_witness:
  "fst (barge_in_run [(102, 500, 450), (102.03, 500, 450)]
         (snd (is_barge_in_speech 101 500 450 tts_playing)))
     = [False, False] \<and>
   fst (is_barge_in_speech 102.06 (500 * 2 + 300) 450
         (snd (barge_in_run [(102, 500, 450), (102.03, 500, 450)]
                (snd (is_barge_in_speech 101 500 450 tts_playing)))))"
proof -
  let ?s = "snd (is_barge_in_speech 101 500 450 tts_playing)"
  let ?echo = "[(102, 500, 450), (102.03, 500, 450)] :: (real \<times> real \<times> real) list"
  have f: "tts_energy_initialized ?s" "tts_energy_ema ?s = 500" "tts_started_at ?s = 100"
    by (simp_all add: barge_in_first[OF not_guard_101] tts_playing_fields)
  have h1: "(0::real) \<le> 500" by simp
  have h2: "tts_energy_initialized ?s \<longrightarrow> tts_energy_ema ?s = 500" using f by simp
  have h3: "\<forall>f\<in>set ?echo. fst (snd f) = 500" by simp
  have ts: "tts_started_at (snd (barge_in_run ?echo ?s)) = 100"
    using barge_in_run_echo[OF h1 h2 h3] f by simp
  have i: "tts_energy_initialized (snd (barge_in_run ?echo ?s))"
    using f by (simp add: case_prod_beta Let_def is_barge_in_speech_def)
  have g: "\<not> in_guard_window 102.06 (snd (barge_in_run ?echo ?s))"
    unfolding in_guard_window_def ts BARGE_IN_GUARD_MS_def by simp
  show ?thesis
    using barge_in_requires_margin[OF h1 h2 h3, of "102.06" 450] i g by simp
qed

subsection \<open>What a frame does to the segmenter\<close>

lemma update_noise_floor_fields [simp]:
  "is_recording (update_noise_floor cfg e s) = is_recording s"
  "is_speaking (update_noise_floor cfg e s) = is_speaking s"
  "is_listening (update_noise_floor cfg e s) = is_listening s"
  "speech_frames (update_noise_floor cfg e s) = speech_frames s"
  "silence_frames (update_noise_floor cfg e s) = silence_frames s"
  "audio_buffer (update_noise_floor cfg e s) = audio_buffer s"
  "dispatched (update_noise_floor cfg e s) = dispatched s"
  "ignore_until (update_noise_floor cfg e s) = ignore_until s"
  "handoff_fails (update_noise_floor cfg e s) = handoff_fails s"
  "warnings (update_noise_floor cfg e s) = warnings s"
  by (simp_all add: update_noise_floor_def)

lemma classify_fields [simp]:
  "is_recording (snd (classify now e th s)) = is_recording s"
  "is_speaking (snd (classify now e th s)) = is_speaking s"
  "is_listening (snd (classify now e th s)) = is_listening s"
  "speech_frames (snd (classify now e th s)) = speech_frames s"
  "silence_frames (snd (classify now e th s)) = silence_frames s"
  "audio_buffer (snd (classify now e th s)) = audio_buffer s"
  "dispatched (snd (classify now e th s)) = dispatched s"
  "ignore_until (snd (classify now e th s)) = ignore_until s"
  "handoff_fails (snd (classify now e th s)) = handoff_fails s"
  "warnings (snd (classify now e th s)) = warnings s"
  by (simp_all add: classify_def is_barge_in_speech_def Let_def)

lemma core_drop_and_reset:
  "core (drop_and_reset s) =
     (False, 0, 0, if is_recording s then [] else audio_buffer s, dispatched s)"
  by (simp add: core_def drop_and_reset_def)

lemma core_await:
  "core (await_speech cfg f b s) =
    (if b then (if speech_frames s + 1 \<ge> SPEECH_START_FRAMES cfg
                then (True, speech_frames s + 1, 0, [f], dispatched s)
                else (is_recording s, speech_frames s + 1, silence_frames s,
                      audio_buffer s, dispatched s))
     else (is_recording s, max 0 (speech_frames s - 1), silence_frames s,
           audio_buffer s, dispatched s))"
  by (simp add: core_def await_speech_def Let_def request_interrupt_def)

lemma core_collect:
  "core (collect_audio cfg f b s) =
    (let buf = deque_append (audio_buffer s) f;
         fin = (False, 0, 0, [],
                if length buf > 5 \<and> \<not> handoff_fails s then dispatched s @ [buf]
                else dispatched s)
     in if b then (if length buf \<ge> MAX_RECORDING_FRAMES then fin
                   else (is_recording s, speech_frames s, 0, buf, dispatched s))
        else if silence_frames s + 1 \<ge> SILENCE_END_FRAMES cfg then fin
        else if length buf \<ge> MAX_RECORDING_FRAMES then fin
        else (is_recording s, speech_frames s, silence_frames s + 1, buf, dispatched s))"
  by (simp add: core_def collect_audio_def Let_def finish_recording_def MAX_RECORDING_FRAMES_def)

lemma process_frame_ignored:
  "frame_verdict cfg now e th s = Ignored \<Longrightarrow>
   core (process_frame cfg now f e th s) =
     (False, 0, 0, if is_recording s then [] else audio_buffer s, dispatched s)"
  by (simp add: frame_verdict_def process_frame_def Let_def core_drop_and_reset
      split: if_splits)

lemma process_frame_not_ignored:
  "frame_verdict cfg now e th s \<noteq> Ignored \<Longrightarrow>
   process_frame cfg now f e th s =
     (let s2 = snd (classify now e th (update_noise_floor cfg e (s\<lparr>last_energy := e\<rparr>)));
          b = (frame_verdict cfg now e th s = Speech)
      in if is_speaking s \<and> \<not> b then drop_and_reset s2
         else if \<not> is_recording s then await_speech cfg f b s2
         else collect_audio cfg f b s2)"
  by (simp add: frame_verdict_def process_frame_def Let_def case_prod_beta split: if_splits)

lemma core_process_frame:
  "core (process_frame cfg now f e th s) =
     seg_step cfg (frame_verdict cfg now e th s) (is_speaking s) (handoff_fails s) f (core s)"
proof (cases "frame_verdict cfg now e th s = Ignored")
  case True
  have rhs: "core s =
      (is_recording s, speech_frames s, silence_frames s, audio_buffer s, dispatched s)"
    by (simp add: core_def)
  show ?thesis by (simp add: process_frame_ignored[OF True] seg_step_def rhs True)
next
  case False
  have rhs: "core s =
      (is_recording s, speech_frames s, silence_frames s, audio_buffer s, dispatched s)"
    by (simp add: core_def)
  have v: "frame_verdict cfg now e th s = Speech \<or> frame_verdict cfg now e th s = Silence"
    using False by (cases "frame_verdict cfg now e th s") auto
  show ?thesis
    using v
    by (auto simp add: process_frame_not_ignored[OF False] Let_def seg_step_def rhs
        core_drop_and_reset core_await core_collect)
qed

lemma core_set_listening:
  "core (set_listening l s) = (if l then core s else (False, 0, 0, [], dispatched s))"
  by (simp add: core_def set_listening_def Let_def)

lemma core_set_speaking: "core (set_speaking b now s) = core s"
  by (simp add: core_def set_speaking_def Let_def)

lemma core_init: "core (init_engine a b) = (False, 0, 0, [], [])"
  by (simp add: core_def init_engine_def)

subsection \<open>Runs\<close>

lemma run_Nil [simp]: "run cfg s [] = s"
  by (simp add: run_def)

lemma run_snoc [simp]: "run cfg s (evs @ [ev]) = step cfg (run cfg s evs) ev"
  by (simp add: run_def)

lemma run_Cons: "run cfg s (ev # evs) = run cfg (step cfg s ev) evs"
  by (simp add: run_def)

lemma run_append: "run cfg s (xs @ ys) = run cfg (run cfg s xs) ys"
  by (simp add: run_def)

lemma verdicts_snoc:
  "verdicts cfg s (evs @ [ev]) = verdicts cfg s evs @ last_verdict cfg (run cfg s evs) ev"
proof (induction evs arbitrary: s)
  case Nil
  show ?case by (cases ev) simp_all
next
  case (Cons a evs)
  show ?case using Cons.IH by (cases a) (simp_all add: run_Cons)
qed

lemma trailing_Nil [simp]: "trailing v [] = 0"
  by (simp add: trailing_def)

lemma trailing_snoc [simp]:
  "trailing v (vs @ [x]) = (if x = v then Suc (trailing v vs) else 0)"
  by (simp add: trailing_def)

lemma deque_append_nonempty [simp]: "deque_append buf f \<noteq> []"
  by (simp add: deque_append_def)

subsection \<open>Buffer exclusivity\<close>

lemma buffer_inv_core:
  "buffer_inv s \<longleftrightarrow> (case core s of (rec, sp, si, buf, d) \<Rightarrow> (buf \<noteq> []) = rec)"
  by (simp add: buffer_inv_def core_def)

lemma buffer_inv_step: "buffer_inv s \<Longrightarrow> buffer_inv (step cfg s ev)"
proof (cases ev)
  case (Frame now f e th)
  assume "buffer_inv s"
  then show ?thesis
    unfolding buffer_inv_core Frame step.simps core_process_frame
    by (cases "core s") (auto simp add: seg_step_def Let_def)
next
  case (SetSpeaking b now)
  assume "buffer_inv s"
  then show ?thesis
    unfolding buffer_inv_core SetSpeaking step.simps core_set_speaking .
next
  case (SetListening l)
  assume "buffer_inv s"
  then show ?thesis
    unfolding buffer_inv_core SetListening step.simps core_set_listening
    by (cases "core s") auto
qed

lemma buffer_inv_run: "buffer_inv s \<Longrightarrow> buffer_inv (run cfg s evs)"
  by (induction evs rule: rev_induct) (simp_all add: buffer_inv_step)

lemma buffer_inv_init: "buffer_inv (init_engine a b)"
  by (simp add: buffer_inv_def init_engine_def)

text \<open>
  Claim C2. After any sequence of frame-processing steps and setter calls on a fresh engine
  (so between any two steps, and after every call of \<^verbatim>\<open>set_listening\<close> or
  \<^verbatim>\<open>set_speaking\<close>), the buffer is non-empty if and only if the engine is recording.
\<close>

theorem buffer_exclusivity:
  "(audio_buffer (run cfg (init_engine a b) evs) \<noteq> [])
     = is_recording (run cfg (init_engine a b) evs)"
  using buffer_inv_run[OF buffer_inv_init] by (simp add: buffer_inv_def)

subsection \<open>Hysteresis of the segmenter\<close>

lemma seg_inv_seg_step:
  "seg_inv cfg vs c \<Longrightarrow> seg_inv cfg (vs @ [v]) (seg_step cfg v speaking fails f c)"
  by (cases c; cases v) (auto simp add: seg_inv_def seg_step_def Let_def)

lemma seg_inv_step:
  assumes "seg_inv cfg (verdicts cfg s0 evs) (core (run cfg s0 evs))"
  shows "seg_inv cfg (verdicts cfg s0 (evs @ [ev])) (core (run cfg s0 (evs @ [ev])))"
proof (cases ev)
  case (Frame now f e th)
  show ?thesis
    using seg_inv_seg_step[OF assms]
    by (simp add: Frame verdicts_snoc core_process_frame)
next
  case (SetSpeaking b now)
  show ?thesis using assms by (simp add: SetSpeaking verdicts_snoc core_set_speaking)
next
  case (SetListening l)
  show ?thesis using assms
    by (cases "core (run cfg s0 evs)")
       (auto simp add: SetListening verdicts_snoc core_set_listening seg_inv_def)
qed

lemma seg_inv_run:
  "seg_inv cfg (verdicts cfg (init_engine a b) evs) (core (run cfg (init_engine a b) evs))"
proof (induction evs rule: rev_induct)
  case Nil
  show ?case by (simp add: core_init seg_inv_def)
next
  case (snoc ev evs)
  then show ?case by (rule seg_inv_step)
qed

lemma is_recording_core: "is_recording s = fst (core s)"
  by (simp add: core_def)

lemmas eval_defs = run_def process_frame_def init_engine_def update_noise_floor_def
  classify_def is_barge_in_speech_def in_guard_window_def in_cooldown_def await_speech_def
  collect_audio_def drop_and_reset_def finish_recording_def deque_append_def
  request_interrupt_def set_speaking_def set_listening_def frame_verdict_def
  default_config_def Let_def MAX_RECORDING_FRAMES_def BARGE_IN_GUARD_MS_def
  BARGE_IN_COOLDOWN_MS_def BARGE_IN_MULTIPLIER_def BARGE_IN_DELTA_def
  TTS_BASELINE_EMA_ALPHA_def NOISE_FLOOR_EMA_ALPHA_def NOISE_FLOOR_MULTIPLIER_def
  NOISE_FLOOR_MARGIN_def echo_threshold_boost_def

lemma barge_in_events_run:
  "is_speaking (run default_config (init_engine True True) barge_in_events)"
  "is_recording (run default_config (init_engine True True) barge_in_events)"
  "audio_buffer (run default_config (init_engine True True) barge_in_events) = [3]"
  "dispatched (run default_config (init_engine True True) barge_in_events) = []"
  by (simp_all add: barge_in_events_def eval_defs)

lemma echo_dip_run:
  "\<not> is_recording
      (run default_config (init_engine True True) (barge_in_events @ [echo_dip]))"
  "verdicts default_config (init_engine True True) (barge_in_events @ [echo_dip])
     = [Silence, Silence, Speech, Speech, Silence]"
  by (simp_all add: barge_in_events_def echo_dip_def eval_defs)

lemma dip_events_run:
  "\<not> is_recording (run three_frame_config (init_engine True True) dip_events)"
  "is_recording (run three_frame_config (init_engine True True) (dip_events @ [after_dip]))"
  "verdicts three_frame_config (init_engine True True) (dip_events @ [after_dip])
     = [Silence, Speech, Speech, Silence, Speech, Speech]"
  by (simp_all add: dip_events_def after_dip_def three_frame_config_def eval_defs)

text \<open>
  Claim C1 as stated fails, in both halves.
  Exit: with the default configuration (silence-confirm count 16), a barge-in recording one
  frame long is ended by one frame at echo level while TTS plays: the run ends with a single
  silence verdict and the buffer is nowhere near the cap.
  Entry: with a speech-confirm count of 3 the decaying speech counter lets the engine start
  recording on a frame that ends only two consecutive speech verdicts.
\<close>

theorem hysteresis_counterexample:
  "SILENCE_END_FRAMES default_config = 16 \<and>
   is_recording (run default_config (init_engine True True) barge_in_events) \<and>
   \<not> is_recording (run default_config (init_engine True True) (barge_in_events @ [echo_dip])) \<and>
   trailing Silence
     (verdicts default_config (init_engine True True) (barge_in_events @ [echo_dip])) = 1 \<and>
   length (audio_buffer (run default_config (init_engine True True) barge_in_events)) = 1 \<and>
   SPEECH_START_FRAMES three_frame_config = 3 \<and>
   \<not> is_recording (run three_frame_config (init_engine True True) dip_events) \<and>
   is_recording (run three_frame_config (init_engine True True) (dip_events @ [after_dip])) \<and>
   trailing Speech
     (verdicts three_frame_config (init_engine True True) (dip_events @ [after_dip])) = 2"
proof -
  have m: "SILENCE_END_FRAMES default_config = 16" "SPEECH_START_FRAMES three_frame_config = 3"
    by (simp_all add: default_config_def three_frame_config_def)
  have t1: "trailing Silence
      (verdicts default_config (init_engine True True) (barge_in_events @ [echo_dip])) = 1"
    unfolding echo_dip_run(2) by (simp add: trailing_def)
  have l: "length (audio_buffer (run default_config (init_engine True True) barge_in_events)) = 1"
    unfolding barge_in_events_run(3) by simp
  have t2: "trailing Speech
      (verdicts three_frame_config (init_engine True True) (dip_events @ [after_dip])) = 2"
    unfolding dip_events_run(3) by (simp add: trailing_def)
  show ?thesis
    by (intro conjI m barge_in_events_run(2) echo_dip_run(1) t1 l dip_events_run(1,2) t2)
qed

text \<open>
  Claim C1, amended. Take any run of frames and setter calls on a fresh engine and one more
  event.
  Entry: if the speech-confirm count is at most 2 (the default is 2) and the event takes the
  engine from not recording to recording, the verdicts of the run including this frame end
  with at least that many consecutive speech verdicts.
  Exit: if the event takes the engine out of recording, then it is
  \<^verbatim>\<open>set_listening(False)\<close>, or a frame that was ignored (listening disabled or post-TTS
  cooldown), or a frame without barge-in speech while TTS is playing, or the verdicts end
  with at least \<^verbatim>\<open>SILENCE_END_FRAMES\<close> consecutive silence verdicts, or the buffer reaches
  \<^verbatim>\<open>MAX_RECORDING_FRAMES\<close> with this frame.
\<close>

theorem hysteresis:
  "(SPEECH_START_FRAMES cfg \<le> 2 \<and>
    \<not> is_recording (run cfg (init_engine a b) evs) \<and>
    is_recording (run cfg (init_engine a b) (evs @ [ev]))
    \<longrightarrow> SPEECH_START_FRAMES cfg
          \<le> int (trailing Speech (verdicts cfg (init_engine a b) (evs @ [ev]))))
   \<and>
   (is_recording (run cfg (init_engine a b) evs) \<and>
    \<not> is_recording (run cfg (init_engine a b) (evs @ [ev]))
    \<longrightarrow> ev = SetListening False
      \<or> last_verdict cfg (run cfg (init_engine a b) evs) ev = [Ignored]
      \<or> (is_speaking (run cfg (init_engine a b) evs) \<and>
          last_verdict cfg (run cfg (init_engine a b) evs) ev = [Silence])
      \<or> SILENCE_END_FRAMES cfg
           \<le> int (trailing Silence (verdicts cfg (init_engine a b) (evs @ [ev])))
      \<or> MAX_RECORDING_FRAMES \<le> length (audio_buffer (run cfg (init_engine a b) evs)) + 1)"
proof -
  let ?s = "run cfg (init_engine a b) evs"
  let ?vs = "verdicts cfg (init_engine a b) evs"
  obtain rec sp si buf d where c: "core ?s = (rec, sp, si, buf, d)"
    by (cases "core ?s") auto
  have inv: "seg_inv cfg ?vs (rec, sp, si, buf, d)"
    using seg_inv_run[of cfg a b evs] c by simp
  have buf: "buf = audio_buffer ?s" using c by (simp add: core_def)
  show ?thesis
  proof (cases ev)
    case (Frame now f e th)
    have len: "length (deque_append buf f) \<ge> MAX_RECORDING_FRAMES
                 \<longleftrightarrow> MAX_RECORDING_FRAMES \<le> length buf + 1"
      by (auto simp add: deque_append_def MAX_RECORDING_FRAMES_def)
    show ?thesis
      using inv len
      by (cases "frame_verdict cfg now e th ?s")
         (auto simp add: Frame is_recording_core core_process_frame c verdicts_snoc
            seg_step_def seg_inv_def Let_def buf[symmetric] split: if_splits)
  next
    case (SetSpeaking sp now)
    then show ?thesis by (simp add: is_recording_core core_set_speaking)
  next
    case (SetListening l)
    then show ?thesis by (cases l) (simp_all add: is_recording_core core_set_listening c)
  qed
qed

subsection \<open>Runs on an engine with TTS silent\<close>

lemma process_frame_flags:
  "is_speaking (process_frame cfg now f e th s) = is_speaking s"
  "is_listening (process_frame cfg now f e th s) = is_listening s"
  "ignore_until (process_frame cfg now f e th s) = ignore_until s"
  "handoff_fails (process_frame cfg now f e th s) = handoff_fails s"
  by (simp_all add: process_frame_def Let_def case_prod_beta drop_and_reset_def
      await_speech_def collect_audio_def finish_recording_def request_interrupt_def)

lemma plain_process_frame: "plain s \<Longrightarrow> plain (process_frame cfg now f e th s)"
  by (simp add: plain_def process_frame_flags)

lemma plain_verdict:
  "plain s \<Longrightarrow> frame_verdict cfg now e th s = (if e > th then Speech else Silence)"
  by (simp add: plain_def frame_verdict_def in_cooldown_def classify_def Let_def)

lemma plain_init: "plain (init_engine a b)"
  by (simp add: plain_def init_engine_def)

lemma plain_frame_step:
  assumes "plain s"
  shows "plain (step cfg s (Frame now f e th)) \<and>
         core (step cfg s (Frame now f e th))
           = seg_step cfg (if e > th then Speech else Silence) False False f (core s)"
  using assms
  by (simp add: plain_process_frame core_process_frame plain_verdict) (simp add: plain_def)

lemma deque_append_short:
  "length buf < MAX_RECORDING_FRAMES \<Longrightarrow> deque_append buf f = buf @ [f]"
  by (simp add: deque_append_def)

lemma payloads_append: "payloads (xs @ ys) = payloads xs @ payloads ys"
  by (simp add: payloads_def)

lemma payloads_Cons_Frame: "payloads (Frame now f e th # evs) = f # payloads evs"
  by (simp add: payloads_def)

lemma length_payloads_loud:
  "\<forall>ev\<in>set evs. loud ev \<Longrightarrow> length (payloads evs) = length evs"
proof (induction evs)
  case Nil
  show ?case by (simp add: payloads_def)
next
  case (Cons ev evs)
  then show ?case by (cases ev) (simp_all add: payloads_Cons_Frame)
qed

lemma length_payloads_quiet:
  "\<forall>ev\<in>set evs. quiet ev \<Longrightarrow> length (payloads evs) = length evs"
proof (induction evs)
  case Nil
  show ?case by (simp add: payloads_def)
next
  case (Cons ev evs)
  then show ?case by (cases ev) (simp_all add: payloads_Cons_Frame)
qed

text \<open>Loud frames while recording are appended and keep the silence counter at zero.\<close>

lemma recording_loud_run:
  "plain s \<Longrightarrow> core s = (True, sp, si, buf, d) \<Longrightarrow> \<forall>ev\<in>set evs. loud ev \<Longrightarrow>
   length buf + length evs < MAX_RECORDING_FRAMES \<Longrightarrow>
   plain (run cfg s evs) \<and>
   core (run cfg s evs) = (True, sp, if evs = [] then si else 0, buf @ payloads evs, d)"
proof (induction evs arbitrary: s si buf)
  case Nil
  then show ?case by (simp add: payloads_def)
next
  case (Cons ev evs)
  from Cons.prems(3) obtain now f e th where ev: "ev = Frame now f e th" and l: "e > th"
    by (cases ev) auto
  note st = plain_frame_step[OF Cons.prems(1), of cfg now f e th]
  have short: "length buf < MAX_RECORDING_FRAMES" "\<not> MAX_RECORDING_FRAMES \<le> Suc (length buf)"
    using Cons.prems(4) by simp_all
  have c: "core (step cfg s ev) = (True, sp, 0, buf @ [f], d)"
    using st l short
    by (simp add: ev Cons.prems(2) seg_step_def Let_def deque_append_short)
  have len: "length (buf @ [f]) + length evs < MAX_RECORDING_FRAMES"
    using Cons.prems(4) by simp
  have rest: "\<forall>ev\<in>set evs. loud ev" using Cons.prems(3) by simp
  have p: "plain (step cfg s ev)" using st by (simp add: ev)
  from Cons.IH[OF p c rest len]
  show ?case by (simp add: run_Cons payloads_def ev)
qed

text \<open>Quiet frames while recording are appended and counted, short of the confirm count.\<close>

lemma recording_quiet_run:
  "plain s \<Longrightarrow> core s = (True, sp, si, buf, d) \<Longrightarrow> \<forall>ev\<in>set evs. quiet ev \<Longrightarrow>
   length buf + length evs < MAX_RECORDING_FRAMES \<Longrightarrow>
   si + int (length evs) < SILENCE_END_FRAMES cfg \<Longrightarrow>
   plain (run cfg s evs) \<and>
   core (run cfg s evs) = (True, sp, si + int (length evs), buf @ payloads evs, d)"
proof (induction evs arbitrary: s si buf)
  case Nil
  then show ?case by (simp add: payloads_def)
next
  case (Cons ev evs)
  from Cons.prems(3) obtain now f e th where ev: "ev = Frame now f e th" and l: "e \<le> th"
    by (cases ev) auto
  note st = plain_frame_step[OF Cons.prems(1), of cfg now f e th]
  have short: "length buf < MAX_RECORDING_FRAMES" "\<not> MAX_RECORDING_FRAMES \<le> Suc (length buf)"
    using Cons.prems(4) by simp_all
  have nofin: "\<not> SILENCE_END_FRAMES cfg \<le> si + 1" using Cons.prems(5) by simp
  have c: "core (step cfg s ev) = (True, sp, si + 1, buf @ [f], d)"
    using st l short nofin
    by (simp add: ev Cons.prems(2) seg_step_def Let_def deque_append_short)
  have len: "length (buf @ [f]) + length evs < MAX_RECORDING_FRAMES"
    using Cons.prems(4) by simp
  have si: "si + 1 + int (length evs) < SILENCE_END_FRAMES cfg" using Cons.prems(5) by simp
  have rest: "\<forall>ev\<in>set evs. quiet ev" using Cons.prems(3) by simp
  have p: "plain (step cfg s ev)" using st by (simp add: ev)
  from Cons.IH[OF p c rest len si]
  show ?case by (simp add: run_Cons payloads_def ev)
qed

subsection \<open>The normal turn\<close>

lemma split12:
  assumes "length (sp::'a list) = 12"
  obtains e1 e2 rest where "sp = e1 # e2 # rest" "length rest = 10"
proof -
  from assms obtain e1 t1 where a: "sp = e1 # t1" by (cases sp) auto
  with assms obtain e2 rest where b: "t1 = e2 # rest" by (cases t1) auto
  from a b assms have "length rest = 10" by simp
  with a b that show ?thesis by blast
qed

lemma normal_turn_run:
  assumes "length sp = 12" "\<forall>ev\<in>set sp. loud ev" "length si = 16" "\<forall>ev\<in>set si. quiet ev"
  shows "core (run default_config (init_engine a b) (take 1 sp)) = (False, 1, 0, [], []) \<and>
         core (run default_config (init_engine a b) (take 2 sp))
           = (True, 2, 0, payloads (take 1 (tl sp)), []) \<and>
         plain (run default_config (init_engine a b) (sp @ butlast si)) \<and>
         core (run default_config (init_engine a b) (sp @ butlast si))
           = (True, 2, 15, payloads (tl sp @ butlast si), []) \<and>
         core (run default_config (init_engine a b) (sp @ si))
           = (False, 0, 0, [], [payloads (tl sp @ si)]) \<and>
         length (payloads (tl sp @ si)) = 27"
proof -
  let ?cfg = default_config
  let ?s0 = "init_engine a b :: 'a engine"
  from assms(1) obtain e1 e2 rest where sp: "sp = e1 # e2 # rest" and lr: "length rest = 10"
    by (rule split12)
  from assms(2) sp obtain n1 f1 x1 t1 where e1: "e1 = Frame n1 f1 x1 t1" and l1: "x1 > t1"
    by (cases e1) auto
  from assms(2) sp obtain n2 f2 x2 t2 where e2: "e2 = Frame n2 f2 x2 t2" and l2: "x2 > t2"
    by (cases e2) auto
  have si_ne: "si \<noteq> []" using assms(3) by auto
  then obtain lst where si: "si = butlast si @ [lst]" by (metis append_butlast_last_id)
  have q: "quiet lst" using assms(4) si by (metis in_set_conv_decomp)
  then obtain n3 f3 x3 t3 where lst: "lst = Frame n3 f3 x3 t3" and l3: "x3 \<le> t3"
    by (cases lst) auto
  have lb: "length (butlast si) = 15" using assms(3) by simp
  have qb: "\<forall>ev\<in>set (butlast si). quiet ev" using assms(4) by (meson in_set_butlastD)
  have lrest: "\<forall>ev\<in>set rest. loud ev" using assms(2) sp by simp
  have cfg: "SPEECH_START_FRAMES ?cfg = 2" "SILENCE_END_FRAMES ?cfg = 16"
    by (simp_all add: default_config_def)
  \<comment> \<open>first frame: counted, not yet recording\<close>
  note st1 = plain_frame_step[where s="?s0" and cfg="?cfg" and now=n1 and f=f1 and e=x1
      and th=t1, OF plain_init]
  have c1: "core (run ?cfg ?s0 [e1]) = (False, 1, 0, [], [])"
    using st1 l1 by (simp add: run_Cons e1 core_init seg_step_def cfg)
  have p1: "plain (run ?cfg ?s0 [e1])" using st1 by (simp add: run_Cons e1)
  \<comment> \<open>second frame: recording starts, the buffer holds this frame only\<close>
  note st2 = plain_frame_step[where cfg="?cfg" and now=n2 and f=f2 and e=x2 and th=t2, OF p1]
  have r2: "run ?cfg ?s0 [e1, e2] = step ?cfg (run ?cfg ?s0 [e1]) e2"
    using run_snoc[of ?cfg ?s0 "[e1]" e2] by simp
  have c2: "core (run ?cfg ?s0 [e1, e2]) = (True, 2, 0, [f2], [])"
    unfolding r2 using st2 l2 by (simp add: e2 c1 seg_step_def cfg)
  have p2: "plain (run ?cfg ?s0 [e1, e2])" unfolding r2 using st2 by (simp add: e2)
  \<comment> \<open>ten more speech frames\<close>
  have len3: "length [f2] + length rest < MAX_RECORDING_FRAMES"
    by (simp add: lr MAX_RECORDING_FRAMES_def)
  note st3 = recording_loud_run[where cfg="?cfg", OF p2 c2 lrest len3]
  have r3: "run ?cfg ?s0 sp = run ?cfg (run ?cfg ?s0 [e1, e2]) rest"
    using run_append[of ?cfg ?s0 "[e1, e2]" rest] by (simp add: sp)
  have rest_ne: "rest \<noteq> []" using lr by auto
  have c3: "core (run ?cfg ?s0 sp) = (True, 2, 0, [f2] @ payloads rest, [])"
    unfolding r3 using st3 rest_ne by simp
  have p3: "plain (run ?cfg ?s0 sp)" unfolding r3 using st3 by simp
  have lp: "length (payloads rest) = 10" using length_payloads_loud[OF lrest] lr by simp
  \<comment> \<open>fifteen silence frames\<close>
  have lpb: "length (payloads (butlast si)) = 15"
    using length_payloads_quiet[OF qb] lb by simp
  have len4: "length ([f2] @ payloads rest) + length (butlast si) < MAX_RECORDING_FRAMES"
    using lb by (simp add: lp MAX_RECORDING_FRAMES_def assms(3))
  have si4: "0 + int (length (butlast si)) < SILENCE_END_FRAMES ?cfg"
    by (simp add: assms(3) cfg)
  note st4 = recording_quiet_run[where cfg="?cfg", OF p3 c3 qb len4 si4]
  have r4: "run ?cfg ?s0 (sp @ butlast si) = run ?cfg (run ?cfg ?s0 sp) (butlast si)"
    by (rule run_append)
  have c4: "core (run ?cfg ?s0 (sp @ butlast si))
              = (True, 2, 15, [f2] @ payloads rest @ payloads (butlast si), [])"
    unfolding r4 using st4 by (simp add: assms(3))
  have p4: "plain (run ?cfg ?s0 (sp @ butlast si))" unfolding r4 using st4 by simp
  \<comment> \<open>the sixteenth silence frame finishes the recording\<close>
  note st5 = plain_frame_step[where cfg="?cfg" and now=n3 and f=f3 and e=x3 and th=t3, OF p4]
  have r5: "run ?cfg ?s0 (sp @ si) = step ?cfg (run ?cfg ?s0 (sp @ butlast si)) lst"
    using run_snoc[of ?cfg ?s0 "sp @ butlast si" lst] si by simp
  have short: "length ([f2] @ payloads rest @ payloads (butlast si)) < MAX_RECORDING_FRAMES"
    by (simp add: lp lpb MAX_RECORDING_FRAMES_def)
  have pl: "payloads (tl sp @ si) = ([f2] @ payloads rest @ payloads (butlast si)) @ [f3]"
  proof -
    have "payloads si = payloads (butlast si) @ [f3]"
      using si lst payloads_append[of "butlast si" "[lst]"] by (simp add: payloads_def)
    then show ?thesis by (simp add: sp e2 payloads_append payloads_Cons_Frame)
  qed
  have plb: "payloads (tl sp @ butlast si) = [f2] @ payloads rest @ payloads (butlast si)"
    by (simp add: sp e2 payloads_append payloads_Cons_Frame)
  have c5: "core (run ?cfg ?s0 (sp @ si)) = (False, 0, 0, [], [payloads (tl sp @ si)])"
    unfolding r5 using st5 l3 deque_append_short[OF short, of f3]
    by (simp add: lst c4 seg_step_def cfg Let_def pl lp lpb)
  have len: "length (payloads (tl sp @ si)) = 27" by (simp add: pl lp lpb)
  have t1: "take 1 sp = [e1]" and t2: "take 2 sp = [e1, e2]"
    and t3: "payloads (take 1 (tl sp)) = [f2]"
    by (simp_all add: sp e2 payloads_def)
  show ?thesis
    unfolding t1 t2 t3 plb using c1 c2 c4 p4 c5 len by simp
qed

lemma turn_frames:
  "length turn_speech = 12" "\<forall>ev\<in>set turn_speech. loud ev"
  "length turn_silence = 16" "\<forall>ev\<in>set turn_silence. quiet ev"
  by (simp_all add: turn_speech_def turn_silence_def)

lemma turn_payloads:
  "payloads (tl turn_speech @ turn_silence)
     = [2, 3, 4, 5, 6, 7, 8, 9, 10, 11, 12, 13, 14, 15, 16, 17, 18, 19, 20,
        21, 22, 23, 24, 25, 26, 27, 28]"
  by (simp add: turn_speech_def turn_silence_def payloads_def)

text \<open>
  Claim C4 as stated fails: on the twelve loud and sixteen quiet frames of
  \<open>turn_speech\<close> and \<open>turn_silence\<close> the one buffer handed to transcription holds frames
  2 to 28, which are 27 frames and not 28. The frame that starts the recording on the
  second speech frame is the first one buffered; the first speech frame is only counted.
\<close>

theorem normal_turn_counterexample:
  "length turn_speech = 12 \<and> length turn_silence = 16 \<and>
   list_all loud turn_speech \<and> list_all quiet turn_silence \<and>
   dispatched (run default_config (init_engine True True) (turn_speech @ turn_silence))
     = [[2, 3, 4, 5, 6, 7, 8, 9, 10, 11, 12, 13, 14, 15, 16, 17, 18, 19, 20,
         21, 22, 23, 24, 25, 26, 27, 28]] \<and>
   length (hd (dispatched
        (run default_config (init_engine True True) (turn_speech @ turn_silence)))) \<noteq> 28"
proof -
  note r = normal_turn_run[OF turn_frames, of True True]
  have d: "dispatched (run default_config (init_engine True True) (turn_speech @ turn_silence))
             = [[2, 3, 4, 5, 6, 7, 8, 9, 10, 11, 12, 13, 14, 15, 16, 17, 18, 19, 20,
                 21, 22, 23, 24, 25, 26, 27, 28]]"
    using r unfolding turn_payloads by (simp add: core_def)
  have l: "list_all loud turn_speech" "list_all quiet turn_silence"
    using turn_frames(2,4) by (simp_all add: list_all_iff)
  show ?thesis
    unfolding d using turn_frames(1,3) l by simp
qed

text \<open>
  Claim C4, amended. From a fresh engine (idle, zero counters, TTS silent), with the default
  configuration: twelve speech-classified frames followed by sixteen silence-classified
  frames leave the engine not recording after the first frame and recording after the
  second; nothing is handed to transcription before the last frame; the last frame
  finalises, and exactly one buffer is dispatched, holding the frames from the second
  speech frame on: \<open>11 + 16 = 27\<close> frames. The engine ends idle with an empty buffer.
\<close>

theorem normal_turn_frame_count:
  assumes "length sp = 12" and "\<forall>ev\<in>set sp. loud ev"
    and "length si = 16" and "\<forall>ev\<in>set si. quiet ev"
  shows "\<not> is_recording (run default_config (init_engine a b) (take 1 sp)) \<and>
         is_recording (run default_config (init_engine a b) (take 2 sp)) \<and>
         is_recording (run default_config (init_engine a b) (sp @ butlast si)) \<and>
         dispatched (run default_config (init_engine a b) (sp @ butlast si)) = [] \<and>
         dispatched (run default_config (init_engine a b) (sp @ si))
           = [payloads (tl sp @ si)] \<and>
         length (payloads (tl sp @ si)) = 27 \<and>
         \<not> is_recording (run default_config (init_engine a b) (sp @ si)) \<and>
         audio_buffer (run default_config (init_engine a b) (sp @ si)) = []"
  using normal_turn_run[OF assms, of a b] by (simp add: core_def)

theorem normal_turn_frame_count_witness:
  "is_recording (run default_config (init_engine True True) (take 2 turn_speech)) \<and>
   dispatched (run default_config (init_engine True True) (turn_speech @ turn_silence))
     = [payloads (tl turn_speech @ turn_silence)] \<and>
   length (payloads (tl turn_speech @ turn_silence)) = 27"
  using normal_turn_frame_count[OF turn_frames, of True True] by simp

text \<open>
  The amended C1 on the normal turn. Entry: the second loud frame starts the recording, and
  the run ends with two speech verdicts. Exit: the sixteenth quiet frame ends it; the engine
  is listening, out of cooldown, TTS is silent and the buffer holds 26 frames, so the exit
  comes from the sixteen silence verdicts that end the run.
\<close>

theorem hysteresis_witness:
  "\<not> is_recording (run default_config (init_engine True True) (take 1 turn_speech)) \<and>
   is_recording (run default_config (init_engine True True) (take 1 turn_speech @ [turn_speech ! 1])) \<and>
   2 \<le> int (trailing Speech
          (verdicts default_config (init_engine True True)
             (take 1 turn_speech @ [turn_speech ! 1]))) \<and>
   is_recording
     (run default_config (init_engine True True) (turn_speech @ butlast turn_silence)) \<and>
   \<not> is_recording
     (run default_config (init_engine True True)
        ((turn_speech @ butlast turn_silence) @ [last turn_silence])) \<and>
   16 \<le> int (trailing Silence
          (verdicts default_config (init_engine True True)
             ((turn_speech @ butlast turn_silence) @ [last turn_silence])))"
proof -
  let ?s0 = "init_engine True True :: nat engine"
  let ?A = "turn_speech @ butlast turn_silence"
  let ?l = "last turn_silence"
  note r = normal_turn_run[OF turn_frames, of True True]
  have cfg: "SPEECH_START_FRAMES default_config = 2" "SILENCE_END_FRAMES default_config = 16"
    by (simp_all add: default_config_def)
  have two: "take 1 turn_speech @ [turn_speech ! 1] = take 2 turn_speech"
    by (simp add: turn_speech_def)
  have full: "?A @ [?l] = turn_speech @ turn_silence"
    by (simp add: turn_silence_def)
  have e1: "\<not> is_recording (run default_config ?s0 (take 1 turn_speech))"
    using r by (simp add: core_def)
  have e2: "is_recording (run default_config ?s0 (take 1 turn_speech @ [turn_speech ! 1]))"
    unfolding two using r by (simp add: core_def)
  have x1: "is_recording (run default_config ?s0 ?A)" using r by (simp add: core_def)
  have x2: "\<not> is_recording (run default_config ?s0 (?A @ [?l]))"
    unfolding full using r by (simp add: core_def)
  have pA: "plain (run default_config ?s0 ?A)" using r by simp
  have lst: "?l = Frame 1.84 28 10 250" by (simp add: turn_silence_def)
  have nl: "?l \<noteq> SetListening False" by (simp add: lst)
  have ni: "last_verdict default_config (run default_config ?s0 ?A) ?l \<noteq> [Ignored]"
    by (simp add: lst plain_verdict[OF pA])
  have ns: "\<not> is_speaking (run default_config ?s0 ?A)" using pA by (simp add: plain_def)
  have nc: "\<not> MAX_RECORDING_FRAMES \<le> length (audio_buffer (run default_config ?s0 ?A)) + 1"
  proof -
    have "audio_buffer (run default_config ?s0 ?A) = payloads (tl turn_speech @ butlast turn_silence)"
      using r by (simp add: core_def)
    then show ?thesis
      by (simp add: turn_speech_def turn_silence_def payloads_def MAX_RECORDING_FRAMES_def)
  qed
  note h1 = hysteresis[of default_config True True "take 1 turn_speech" "turn_speech ! 1"]
  note h2 = hysteresis[of default_config True True ?A ?l]
  have entry: "2 \<le> int (trailing Speech
      (verdicts default_config ?s0 (take 1 turn_speech @ [turn_speech ! 1])))"
    using h1 e1 e2 cfg by simp
  have exit: "16 \<le> int (trailing Silence (verdicts default_config ?s0 (?A @ [?l])))"
    using h2 x1 x2 nl ni ns nc cfg by auto
  show ?thesis
    by (intro conjI e1 e2 entry x1 x2 exit)
qed

subsection \<open>Buffer exclusivity on a run\<close>

text \<open>C2 at the barge-in run: recording, and the buffer holds the frame that started it.\<close>

theorem buffer_exclusivity_witness:
  "audio_buffer (run default_config (init_engine True True) barge_in_events) \<noteq> [] \<and>
   is_recording (run default_config (init_engine True True) barge_in_events) \<and>
   audio_buffer (run default_config (init_engine True True) (barge_in_events @ [echo_dip])) = []"
proof -
  have a: "audio_buffer (run default_config (init_engine True True) barge_in_events) \<noteq> []"
    using buffer_exclusivity[of default_config True True barge_in_events]
      barge_in_events_run(2) by simp
  have b: "audio_buffer
      (run default_config (init_engine True True) (barge_in_events @ [echo_dip])) = []"
    using buffer_exclusivity[of default_config True True "barge_in_events @ [echo_dip]"]
      echo_dip_run(1) by simp
  show ?thesis by (intro conjI a barge_in_events_run(2) b)
qed

subsection \<open>Finalising a recording\<close>

lemma finish_recording_fields:
  "dispatched (finish_recording s)
     = (if length (audio_buffer s) > 5 \<and> \<not> handoff_fails s
        then dispatched s @ [audio_buffer s] else dispatched s)"
  "warnings (finish_recording s)
     = (if length (audio_buffer s) > 5
        then (if handoff_fails s then warnings s @ [WarnPrepareFailed] else warnings s)
        else warnings s @ [WarnBufferTooSmall (length (audio_buffer s))])"
  "audio_buffer (finish_recording s) = []"
  "speech_frames (finish_recording s) = 0"
  "silence_frames (finish_recording s) = 0"
  "\<not> is_recording (finish_recording s)"
  by (simp_all add: finish_recording_def Let_def)

lemma warnings_collect:
  "warnings (collect_audio cfg f b s) =
    (let buf = deque_append (audio_buffer s) f
     in if (\<not> b \<and> SILENCE_END_FRAMES cfg \<le> silence_frames s + 1)
           \<or> MAX_RECORDING_FRAMES \<le> length buf
        then (if length buf > 5
              then (if handoff_fails s then warnings s @ [WarnPrepareFailed] else warnings s)
              else warnings s @ [WarnBufferTooSmall (length buf)])
        else warnings s)"
  by (simp add: collect_audio_def Let_def finish_recording_def MAX_RECORDING_FRAMES_def)

lemma noise_burst_run:
  "warnings (run short_silence_config (init_engine True True) noise_burst)
     = [WarnBufferTooSmall 3]"
  "dispatched (run short_silence_config (init_engine True True) noise_burst) = []"
  "audio_buffer (run short_silence_config (init_engine True True) noise_burst) = []"
  by (simp_all add: noise_burst_def short_silence_config_def eval_defs)

lemma noise_burst_before_last:
  "is_recording (run short_silence_config (init_engine True True) (butlast noise_burst))"
  "\<not> is_speaking (run short_silence_config (init_engine True True) (butlast noise_burst))"
  "silence_frames (run short_silence_config (init_engine True True) (butlast noise_burst)) = 1"
  "audio_buffer (run short_silence_config (init_engine True True) (butlast noise_burst))
     = [2, 3]"
  "dispatched (run short_silence_config (init_engine True True) (butlast noise_burst)) = []"
  "warnings (run short_silence_config (init_engine True True) (butlast noise_burst)) = []"
  "frame_verdict short_silence_config 1.12 10 250
     (run short_silence_config (init_engine True True) (butlast noise_burst)) = Silence"
  by (simp_all add: noise_burst_def short_silence_config_def eval_defs)

text \<open>
  Claim C6 as stated fails on two counts. With a silence-confirm count of 2, the run
  \<open>noise_burst\<close> finalises a recording of three frames: it is dropped, but not silently,
  the warning about the short buffer is printed. And a buffer of six frames is not handed to
  transcription when the hand-off to the executor raises: the exception is caught, a
  warning is printed and the buffer is dropped.
\<close>

theorem finalize_silent_counterexample:
  "SILENCE_END_FRAMES short_silence_config = 2 \<and>
   dispatched (run short_silence_config (init_engine True True) noise_burst) = [] \<and>
   audio_buffer (run short_silence_config (init_engine True True) noise_burst) = [] \<and>
   warnings (run short_silence_config (init_engine True True) noise_burst)
     = [WarnBufferTooSmall 3] \<and>
   length (audio_buffer six_frames_no_executor) = 6 \<and>
   dispatched (finish_recording six_frames_no_executor) = [] \<and>
   warnings (finish_recording six_frames_no_executor) = [WarnPrepareFailed]"
proof -
  have m: "SILENCE_END_FRAMES short_silence_config = 2"
    by (simp add: short_silence_config_def default_config_def)
  have s: "length (audio_buffer six_frames_no_executor) = 6"
    "dispatched (finish_recording six_frames_no_executor) = []"
    "warnings (finish_recording six_frames_no_executor) = [WarnPrepareFailed]"
    by (simp_all add: six_frames_no_executor_def six_frames_def init_engine_def
        finish_recording_def Let_def)
  show ?thesis
    by (intro conjI m noise_burst_run(2) noise_burst_run(3) noise_burst_run(1) s)
qed

text \<open>
  Claim C6, amended. \<^verbatim>\<open>_finish_recording\<close> hands the buffer to transcription if and only
  if it holds more than 5 frames and the hand-off itself does not raise. Otherwise the buffer
  is dropped with a printed warning, not silently: the short-buffer warning with the number
  of frames when it holds 5 frames or fewer, the preparation warning when the hand-off
  raised. Either way the buffer is left empty, both counters are 0 and the engine is no
  longer recording. And this is what a frame does that finalises a recording in
  \<^verbatim>\<open>_process_frame\<close>: a frame that is processed while recording (not ignored, and not a
  frame without barge-in speech under TTS) and either is the silence frame that brings the
  silence counter to \<^verbatim>\<open>SILENCE_END_FRAMES\<close> or fills the buffer to
  \<^verbatim>\<open>MAX_RECORDING_FRAMES\<close>; there the buffer judged is the one with this frame appended.
\<close>

theorem finalize_min_length:
  "dispatched (finish_recording s)
     = (if length (audio_buffer s) > 5 \<and> \<not> handoff_fails s
        then dispatched s @ [audio_buffer s] else dispatched s) \<and>
   warnings (finish_recording s)
     = (if length (audio_buffer s) > 5
        then (if handoff_fails s then warnings s @ [WarnPrepareFailed] else warnings s)
        else warnings s @ [WarnBufferTooSmall (length (audio_buffer s))]) \<and>
   audio_buffer (finish_recording s) = [] \<and>
   speech_frames (finish_recording s) = 0 \<and>
   silence_frames (finish_recording s) = 0 \<and>
   \<not> is_recording (finish_recording s) \<and>
   (is_recording s \<and> frame_verdict cfg now e th s \<noteq> Ignored \<and>
    \<not> (is_speaking s \<and> frame_verdict cfg now e th s = Silence) \<and>
    ((frame_verdict cfg now e th s = Silence \<and> SILENCE_END_FRAMES cfg \<le> silence_frames s + 1)
     \<or> MAX_RECORDING_FRAMES \<le> length (audio_buffer s) + 1)
    \<longrightarrow>
      dispatched (process_frame cfg now f e th s)
        = (if length (deque_append (audio_buffer s) f) > 5 \<and> \<not> handoff_fails s
           then dispatched s @ [deque_append (audio_buffer s) f] else dispatched s) \<and>
      warnings (process_frame cfg now f e th s)
        = (if length (deque_append (audio_buffer s) f) > 5
           then (if handoff_fails s then warnings s @ [WarnPrepareFailed] else warnings s)
           else warnings s @ [WarnBufferTooSmall (length (deque_append (audio_buffer s) f))]) \<and>
      audio_buffer (process_frame cfg now f e th s) = [] \<and>
      speech_frames (process_frame cfg now f e th s) = 0 \<and>
      silence_frames (process_frame cfg now f e th s) = 0 \<and>
      \<not> is_recording (process_frame cfg now f e th s))"
proof -
  let ?v = "frame_verdict cfg now e th s"
  let ?buf = "deque_append (audio_buffer s) f"
  let ?fin = "is_recording s \<and> ?v \<noteq> Ignored \<and> \<not> (is_speaking s \<and> ?v = Silence) \<and>
    ((?v = Silence \<and> SILENCE_END_FRAMES cfg \<le> silence_frames s + 1)
     \<or> MAX_RECORDING_FRAMES \<le> length (audio_buffer s) + 1)"
  have len: "MAX_RECORDING_FRAMES \<le> length ?buf
               \<longleftrightarrow> MAX_RECORDING_FRAMES \<le> length (audio_buffer s) + 1"
    by (auto simp add: deque_append_def MAX_RECORDING_FRAMES_def)
  have c: "core (process_frame cfg now f e th s)
      = seg_step cfg ?v (is_speaking s) (handoff_fails s) f
          (is_recording s, speech_frames s, silence_frames s, audio_buffer s, dispatched s)"
    using core_process_frame[of cfg now f e th s] by (simp add: core_def[of s])
  have pf: "core (process_frame cfg now f e th s)
        = (False, 0, 0, [],
           if length ?buf > 5 \<and> \<not> handoff_fails s
           then dispatched s @ [?buf] else dispatched s)" if ?fin
    unfolding c using len that
    by (cases ?v) (auto simp add: seg_step_def Let_def)
  have pw: "warnings (process_frame cfg now f e th s)
        = (if length ?buf > 5
           then (if handoff_fails s then warnings s @ [WarnPrepareFailed] else warnings s)
           else warnings s @ [WarnBufferTooSmall (length ?buf)])" if ?fin
  proof -
    have ni: "?v \<noteq> Ignored" using that by simp
    have sv: "?v = Speech \<or> ?v = Silence" using ni by (cases ?v) auto
    show ?thesis
      using that sv len
      by (auto simp add: process_frame_not_ignored[OF ni] Let_def warnings_collect)
  qed
  have "?fin \<longrightarrow>
      dispatched (process_frame cfg now f e th s)
        = (if length ?buf > 5 \<and> \<not> handoff_fails s
           then dispatched s @ [?buf] else dispatched s) \<and>
      warnings (process_frame cfg now f e th s)
        = (if length ?buf > 5
           then (if handoff_fails s then warnings s @ [WarnPrepareFailed] else warnings s)
           else warnings s @ [WarnBufferTooSmall (length ?buf)]) \<and>
      audio_buffer (process_frame cfg now f e th s) = [] \<and>
      speech_frames (process_frame cfg now f e th s) = 0 \<and>
      silence_frames (process_frame cfg now f e th s) = 0 \<and>
      \<not> is_recording (process_frame cfg now f e th s)"
  proof
    assume fin: ?fin
    from pf[OF fin] pw[OF fin] show "dispatched (process_frame cfg now f e th s)
        = (if length ?buf > 5 \<and> \<not> handoff_fails s
           then dispatched s @ [?buf] else dispatched s) \<and>
      warnings (process_frame cfg now f e th s)
        = (if length ?buf > 5
           then (if handoff_fails s then warnings s @ [WarnPrepareFailed] else warnings s)
           else warnings s @ [WarnBufferTooSmall (length ?buf)]) \<and>
      audio_buffer (process_frame cfg now f e th s) = [] \<and>
      speech_frames (process_frame cfg now f e th s) = 0 \<and>
      silence_frames (process_frame cfg now f e th s) = 0 \<and>
      \<not> is_recording (process_frame cfg now f e th s)"
      by (simp add: core_def)
  qed
  then show ?thesis
    using finish_recording_fields[of s] by blast
qed

text \<open>
  The amended rule on two last frames. The sixteenth silence frame of the normal turn
  finalises a buffer of 27 frames: it is dispatched and nothing is printed. The second
  silence frame of \<open>noise_burst\<close>, with a silence-confirm count of 2, finalises a buffer of
  three frames: nothing is dispatched and the short-buffer warning is printed.
\<close>

theorem finalize_min_length_witness:
  "dispatched
     (process_frame default_config 1.84 28 10 250
        (run default_config (init_engine True True) (turn_speech @ butlast turn_silence)))
     = [payloads (tl turn_speech @ butlast turn_silence) @ [28]] \<and>
   audio_buffer
     (process_frame default_config 1.84 28 10 250
        (run default_config (init_engine True True) (turn_speech @ butlast turn_silence))) = [] \<and>
   dispatched
     (process_frame short_silence_config 1.12 4 10 250
        (run short_silence_config (init_engine True True) (butlast noise_burst))) = [] \<and>
   warnings
     (process_frame short_silence_config 1.12 4 10 250
        (run short_silence_config (init_engine True True) (butlast noise_burst)))
     = [WarnBufferTooSmall 3] \<and>
   audio_buffer
     (process_frame short_silence_config 1.12 4 10 250
        (run short_silence_config (init_engine True True) (butlast noise_burst))) = []"
proof -
  let ?s = "run default_config (init_engine True True :: nat engine)
              (turn_speech @ butlast turn_silence)"
  let ?t = "run short_silence_config (init_engine True True :: nat engine)
              (butlast noise_burst)"
  note r = normal_turn_run[OF turn_frames, of True True]
  have p: "plain ?s" using r by simp
  have f: "is_recording ?s" "silence_frames ?s = 15" "dispatched ?s = []"
    "audio_buffer ?s = payloads (tl turn_speech @ butlast turn_silence)"
    using r by (simp_all add: core_def)
  have v: "frame_verdict default_config 1.84 10 250 ?s = Silence"
    by (simp add: plain_verdict[OF p])
  have ns: "\<not> is_speaking ?s" "\<not> handoff_fails ?s" using p by (simp_all add: plain_def)
  have m: "SILENCE_END_FRAMES default_config = 16" by (simp add: default_config_def)
  have l: "length (payloads (tl turn_speech @ butlast turn_silence)) = 26"
    by (simp add: turn_speech_def turn_silence_def payloads_def)
  have da: "deque_append (payloads (tl turn_speech @ butlast turn_silence)) 28
              = payloads (tl turn_speech @ butlast turn_silence) @ [28]"
    by (rule deque_append_short) (simp add: l MAX_RECORDING_FRAMES_def)
  have a: "dispatched (process_frame default_config 1.84 28 10 250 ?s)
             = [payloads (tl turn_speech @ butlast turn_silence) @ [28]] \<and>
           audio_buffer (process_frame default_config 1.84 28 10 250 ?s) = []"
    using finalize_min_length[of ?s default_config "1.84" 10 250 28] f v ns m
    by (simp add: da l)
  have m2: "SILENCE_END_FRAMES short_silence_config = 2"
    by (simp add: short_silence_config_def default_config_def)
  have da2: "deque_append [2, 3] (4::nat) = [2, 3, 4]"
    by (simp add: deque_append_def MAX_RECORDING_FRAMES_def)
  have b: "dispatched (process_frame short_silence_config 1.12 4 10 250 ?t) = [] \<and>
           warnings (process_frame short_silence_config 1.12 4 10 250 ?t)
             = [WarnBufferTooSmall 3] \<and>
           audio_buffer (process_frame short_silence_config 1.12 4 10 250 ?t) = []"
    using finalize_min_length[of ?t short_silence_config "1.12" 10 250 4]
      noise_burst_before_last m2
    by (simp add: da2)
  show ?thesis using a b by blast
qed

subsection \<open>Silence while TTS is playing\<close>

text \<open>
  Claim C7. In any state reached by a run on a fresh engine in which TTS is playing: a frame
  that is not classified as (barge-in) speech leaves the engine not recording, with an empty
  buffer, both counters at 0 and nothing new handed to transcription; and a frame hands a
  buffer to transcription only if it is classified as speech, the engine was recording and
  the buffer reaches \<^verbatim>\<open>MAX_RECORDING_FRAMES\<close> with it. So under TTS the silence-confirm
  exit never fires: the cap is the only way to transcription until TTS stops.
\<close>

theorem tts_silence_discards:
  assumes "is_speaking (run cfg (init_engine a b) evs)"
  shows "(frame_verdict cfg now e th (run cfg (init_engine a b) evs) \<noteq> Speech \<longrightarrow>
            \<not> is_recording (run cfg (init_engine a b) (evs @ [Frame now f e th])) \<and>
            audio_buffer (run cfg (init_engine a b) (evs @ [Frame now f e th])) = [] \<and>
            speech_frames (run cfg (init_engine a b) (evs @ [Frame now f e th])) = 0 \<and>
            silence_frames (run cfg (init_engine a b) (evs @ [Frame now f e th])) = 0 \<and>
            dispatched (run cfg (init_engine a b) (evs @ [Frame now f e th]))
              = dispatched (run cfg (init_engine a b) evs))
         \<and>
         (dispatched (run cfg (init_engine a b) (evs @ [Frame now f e th]))
            \<noteq> dispatched (run cfg (init_engine a b) evs) \<longrightarrow>
            frame_verdict cfg now e th (run cfg (init_engine a b) evs) = Speech \<and>
            is_recording (run cfg (init_engine a b) evs) \<and>
            MAX_RECORDING_FRAMES \<le> length (audio_buffer (run cfg (init_engine a b) evs)) + 1)"
proof -
  let ?s = "run cfg (init_engine a b) evs"
  have len: "MAX_RECORDING_FRAMES \<le> length (deque_append (audio_buffer ?s) f)
               \<longleftrightarrow> MAX_RECORDING_FRAMES \<le> length (audio_buffer ?s) + 1"
    by (auto simp add: deque_append_def MAX_RECORDING_FRAMES_def)
  have inv: "(audio_buffer ?s \<noteq> []) = is_recording ?s"
    using buffer_inv_run[OF buffer_inv_init, of cfg a b evs] by (simp add: buffer_inv_def)
  have c: "core (process_frame cfg now f e th ?s)
      = seg_step cfg (frame_verdict cfg now e th ?s) True (handoff_fails ?s) f
          (is_recording ?s, speech_frames ?s, silence_frames ?s, audio_buffer ?s, dispatched ?s)"
    using core_process_frame[of cfg now f e th ?s] assms by (simp add: core_def[of ?s])
  have "core (process_frame cfg now f e th ?s) = (False, 0, 0, [], dispatched ?s)"
    if "frame_verdict cfg now e th ?s \<noteq> Speech"
    unfolding c using that inv
    by (cases "frame_verdict cfg now e th ?s") (auto simp add: seg_step_def)
  moreover have "frame_verdict cfg now e th ?s = Speech \<and> is_recording ?s \<and>
      MAX_RECORDING_FRAMES \<le> length (audio_buffer ?s) + 1"
    if "dispatched (process_frame cfg now f e th ?s) \<noteq> dispatched ?s"
  proof -
    have "snd (snd (snd (snd (core (process_frame cfg now f e th ?s))))) \<noteq> dispatched ?s"
      using that by (simp add: core_def)
    then show ?thesis
      unfolding c using len
      by (cases "frame_verdict cfg now e th ?s")
         (auto simp add: seg_step_def Let_def split: if_splits)
  qed
  ultimately show ?thesis by (auto simp add: core_def)
qed

text \<open>
  C7 on the barge-in run: TTS is playing and a recording is in progress; the next frame is at
  echo level, and the recording is gone without reaching transcription.
\<close>

theorem tts_silence_discards_witness:
  "is_speaking (run default_config (init_engine True True) barge_in_events) \<and>
   is_recording (run default_config (init_engine True True) barge_in_events) \<and>
   \<not> is_recording
       (run default_config (init_engine True True) (barge_in_events @ [Frame 101.09 4 100 450])) \<and>
   audio_buffer
       (run default_config (init_engine True True) (barge_in_events @ [Frame 101.09 4 100 450]))
     = [] \<and>
   dispatched
       (run default_config (init_engine True True) (barge_in_events @ [Frame 101.09 4 100 450]))
     = []"
proof -
  let ?s = "run default_config (init_engine True True :: nat engine) barge_in_events"
  have v: "frame_verdict default_config 101.09 100 450 ?s \<noteq> Speech"
    by (simp add: barge_in_events_def eval_defs)
  show ?thesis
    using tts_silence_discards[OF barge_in_events_run(1), of "101.09" 100 450 4] v
      barge_in_events_run
    by simp
qed

section \<open>Properties of the debounce buffer\<close>

subsection \<open>Nothing empty is ever forwarded\<close>


lemma flush_nonempty_forward:
  "[] \<notin> set (forwarded st) \<Longrightarrow> [] \<notin> set (forwarded (flush_voice_buffer st))"
  by (simp add: flush_voice_buffer_def process_user_input_def Let_def)

















section \<open>Properties of the transcription gate\<close>

text \<open>
  Claim C9. Whatever \<^verbatim>\<open>str.strip\<close> and \<^verbatim>\<open>str.lower\<close> do: with the callback
  \<^verbatim>\<open>on_speech_end\<close> set, \<^verbatim>\<open>_transcribe_async\<close> passes a text to it if and only if the
  provider was called (a client exists and the audio is not empty) and returned a text
  whose trimmed, lower-cased form is not in the hallucination set and has at least 2
  characters; the text passed is that form. The provider is called at most once (no retry).
  When the provider call raises, the call is made once, the callback is not invoked and the
  only effect is the printed error.
\<close>

theorem transcription_gate:
  "emitted (transcribe_async str_strip str_lower has_client provider (Some raises) audio_data) =
     (if has_client \<and> audio_data \<noteq> None \<and> audio_data \<noteq> Some []
      then (case provider (the audio_data) of
              ProviderError \<Rightarrow> []
            | ProviderText raw \<Rightarrow>
                if str_lower (str_strip raw) \<notin> set hallucinations
                   \<and> 2 \<le> length (str_lower (str_strip raw))
                then [str_lower (str_strip raw)] else [])
      else []) \<and>
   provider_calls (transcribe_async str_strip str_lower has_client provider cb audio_data) \<le> 1 \<and>
   (has_client \<and> audio_data = Some audio \<and> audio \<noteq> [] \<and> provider audio = ProviderError \<longrightarrow>
      transcribe_async str_strip str_lower has_client provider cb audio_data
        = \<lparr>provider_calls = 1, emitted = [], printed = [LogTranscriptionError]\<rparr>)"
  by (auto simp add: transcribe_async_def Let_def split: option.splits provider_result.splits)

lemma heard_texts:
  "ascii_lower (ascii_strip (lit ''  Tchau '')) = lit ''tchau''"
  "ascii_lower (ascii_strip (lit '' Abrir o navegador'')) = lit ''abrir o navegador''"
  "ascii_lower (ascii_strip (lit ''A'')) = lit ''a''"
  by (simp_all add: ascii_lower_def ascii_strip_def ascii_space_def lit_def)

lemma heard_membership:
  "lit ''tchau'' \<in> set hallucinations"
  "lit ''abrir o navegador'' \<notin> set hallucinations"
  "length (lit ''abrir o navegador'') = 17" "length (lit ''a'') = 1"
  by (simp_all add: hallucinations_def lit_def)

text \<open>
  C9 on four utterances of ASCII text: a farewell from the hallucination set is dropped, a
  command is emitted trimmed and lower-cased, a one-letter text is dropped, a provider
  failure is printed and dropped.
\<close>

theorem transcription_gate_witness:
  "emitted (transcribe_async ascii_strip ascii_lower True heard (Some (\<lambda>t. False)) (Some [2]))
     = [] \<and>
   emitted (transcribe_async ascii_strip ascii_lower True heard (Some (\<lambda>t. False)) (Some [3]))
     = [lit ''abrir o navegador''] \<and>
   emitted (transcribe_async ascii_strip ascii_lower True heard (Some (\<lambda>t. False)) (Some [4]))
     = [] \<and>
   transcribe_async ascii_strip ascii_lower True heard (Some (\<lambda>t. False)) (Some [5])
     = \<lparr>provider_calls = 1, emitted = [], printed = [LogTranscriptionError]\<rparr>"
proof -
  have p: "heard [2] = ProviderText (lit ''  Tchau '')"
    "heard [3] = ProviderText (lit '' Abrir o navegador'')"
    "heard [4] = ProviderText (lit ''A'')" "heard [5] = ProviderError"
    by (simp_all add: heard_def)
  note g = transcription_gate[where str_strip = ascii_strip and str_lower = ascii_lower
      and has_client = True and provider = heard and raises = "\<lambda>t. False"
      and cb = "Some (\<lambda>t. False)"]
  have a: "emitted (transcribe_async ascii_strip ascii_lower True heard (Some (\<lambda>t. False))
             (Some [2])) = []"
    using g[of "Some [2]" "[2]"] by (simp add: p heard_texts heard_membership)
  have b: "emitted (transcribe_async ascii_strip ascii_lower True heard (Some (\<lambda>t. False))
             (Some [3])) = [lit ''abrir o navegador'']"
    using g[of "Some [3]" "[3]"] by (simp add: p heard_texts heard_membership)
  have c: "emitted (transcribe_async ascii_strip ascii_lower True heard (Some (\<lambda>t. False))
             (Some [4])) = []"
    using g[of "Some [4]" "[4]"] by (simp add: p heard_texts heard_membership)
  have d: "transcribe_async ascii_strip ascii_lower True heard (Some (\<lambda>t. False)) (Some [5])
             = \<lparr>provider_calls = 1, emitted = [], printed = [LogTranscriptionError]\<rparr>"
    using g[of "Some [5]" "[5]"] by (simp add: p)
  show ?thesis by (intro conjI a b c d)
qed

section \<open>Properties of the interrupt handler\<close>

text \<open>
  Claim C10 as stated fails: an interrupt with nothing playing is not a no-op. Outside its
  cooldown \<^verbatim>\<open>_on_interrupt\<close> stores the time in \<^verbatim>\<open>_last_interrupt_at\<close> before it looks
  at the playing flags, so the handler's state changes. The change is visible: half a
  second later, with TTS now active, an interrupt stops playback if the earlier one had not
  happened, and is swallowed by the cooldown if it had. On the engine side
  \<^verbatim>\<open>request_interrupt\<close> raises \<^verbatim>\<open>interrupt_requested\<close> whether or not anything plays.
\<close>

theorem interrupt_noop_counterexample:
  "\<not> tts_active idle_ctx \<and> \<not> engine_is_speaking idle_ctx \<and>
   on_interrupt False 10 idle_ctx \<noteq> Inr idle_ctx \<and>
   on_interrupt False 10 idle_ctx = Inr (idle_ctx\<lparr>last_interrupt_at := 10\<rparr>) \<and>
   on_interrupt False 10.5 (idle_ctx\<lparr>tts_active := True\<rparr>)
     = Inr (idle_ctx\<lparr>tts_active := True, last_interrupt_at := 10.5,
                     stop_speaking_calls := 1, interrupt_logs := 1\<rparr>) \<and>
   on_interrupt False 10.5 (idle_ctx\<lparr>last_interrupt_at := 10, tts_active := True\<rparr>)
     = Inr (idle_ctx\<lparr>last_interrupt_at := 10, tts_active := True\<rparr>) \<and>
   \<not> is_speaking (init_engine True True :: nat engine) \<and>
   \<not> interrupt_requested (init_engine True True :: nat engine) \<and>
   interrupt_requested (request_interrupt (init_engine True True :: nat engine))"
  by (simp add: on_interrupt_def idle_ctx_def Let_def request_interrupt_def init_engine_def)

text \<open>
  Claim C10, amended. When neither the orchestrator's \<^verbatim>\<open>_tts_active\<close> nor the engine's
  \<^verbatim>\<open>is_speaking\<close> is set, \<^verbatim>\<open>_on_interrupt\<close> returns normally (no exception, even if
  stopping playback would raise), does not call \<^verbatim>\<open>stop_speaking\<close> and logs nothing; the
  only attribute it may change is its own \<^verbatim>\<open>_last_interrupt_at\<close>, set to the current time
  when the call is outside the interrupt cooldown.
\<close>

theorem interrupt_without_playback:
  "\<not> tts_active c \<Longrightarrow> \<not> engine_is_speaking c \<Longrightarrow>
   on_interrupt sd_stop_raises now c =
     Inr (c\<lparr>last_interrupt_at :=
              (if now - last_interrupt_at c < interrupt_cooldown_sec c
               then last_interrupt_at c else now)\<rparr>)"
  by (simp add: on_interrupt_def Let_def)

text \<open>
  The amended C10 on the idle orchestrator, with a playback stop that would raise: the
  first interrupt only records its time, a second one half a second later changes nothing.
\<close>

theorem interrupt_without_playback_witness:
  "on_interrupt True 10 idle_ctx = Inr (idle_ctx\<lparr>last_interrupt_at := 10\<rparr>) \<and>
   on_interrupt True 10.5 (idle_ctx\<lparr>last_interrupt_at := 10\<rparr>)
     = Inr (idle_ctx\<lparr>last_interrupt_at := 10\<rparr>)"
  using interrupt_without_playback[of idle_ctx True 10]
    interrupt_without_playback[of "idle_ctx\<lparr>last_interrupt_at := 10\<rparr>" True "10.5"]
  by (simp add: idle_ctx_def)

end
